theory Spec2Isabelle
  imports Complex_Main
begin

section \<open>The layout builder of pdfmake (src/layoutBuilder.js), embedded in HOL\<close>

text \<open>
  The layout builder walks a tree of document nodes and hands lines, images and vectors to a
  page writer. Nodes are JavaScript objects that the traversal mutates and that are shared
  between the document tree and the flat list \<open>linearNodeList\<close>, so they live in an explicit
  heap, addressed by references. JavaScript numbers are modelled by the reals they denote;
  the value \<open>NaN\<close> is written out where the code can produce it, and the arithmetic that
  decides where a run of text is split is done in binary64, as the program does it. A property a JavaScript
  object may lack is an \<open>option\<close>. Names follow the source: a leading underscore of the
  source becomes a trailing prime (\<open>_inlines\<close> is \<open>inlines'\<close>), and a name that HOL already
  uses gets a prime or a prefix (\<open>id'\<close>, \<open>text'\<close>, \<open>image'\<close>, \<open>node_x\<close>).

  The classes the builder imports (the page writer and its document context, the traversal
  tracker, \<open>Line\<close>, \<open>TextTools\<close>, the column calculator, the table processor) are not part
  of the file. They are parameters of the model, gathered in the record \<open>collab\<close>; every
  theorem holds for all of them.
\<close>

subsection \<open>Outcomes\<close>

text \<open>
  A call either returns, throws, or does not return. \<open>Some (Inr v)\<close> is a return,
  \<open>Some (Inl e)\<close> a throw, \<open>None\<close> a call that never returns.
\<close>

datatype error = TypeError string | Thrown string

type_synonym 'a outcome = "(error + 'a) option"

definition returns :: "'a \<Rightarrow> 'a outcome" where
  "returns v = Some (Inr v)"

definition throws :: "error \<Rightarrow> 'a outcome" where
  "throws e = Some (Inl e)"

definition andThen :: "'a outcome \<Rightarrow> ('a \<Rightarrow> 'b outcome) \<Rightarrow> 'b outcome" where
  "andThen m f = (case m of None \<Rightarrow> None | Some (Inl e) \<Rightarrow> Some (Inl e) | Some (Inr v) \<Rightarrow> f v)"

lemma andThen_returns [simp]: "andThen (returns v) f = f v"
  by (simp add: andThen_def returns_def)

lemma andThen_throws [simp]: "andThen (throws e) f = throws e"
  by (simp add: andThen_def throws_def)

lemma andThen_None [simp]: "andThen None f = None"
  by (simp add: andThen_def)

lemma outcome_distinct [simp]:
  "returns v \<noteq> throws e" "throws e \<noteq> returns v" "returns v \<noteq> None" "throws e \<noteq> None"
  "None \<noteq> returns v" "None \<noteq> throws e"
  by (simp_all add: returns_def throws_def)

lemma outcome_inject [simp]:
  "(returns v = returns v') = (v = v')" "(throws e = throws e') = (e = e')"
  by (simp_all add: returns_def throws_def)


text \<open>A JavaScript number that may be \<open>NaN\<close> (the sum of a number and \<open>undefined\<close>).\<close>

datatype number = Num real | NaN

fun plus_number :: "number \<Rightarrow> number \<Rightarrow> number" where
  "plus_number (Num a) (Num b) = Num (a + b)"
| "plus_number _ _ = NaN"

subsection \<open>Data\<close>

type_synonym ref = nat

record position =
  pageNumber :: int
  left' :: real
  top' :: real

record pageRef =
  nodeRef' :: "ref option"

text \<open>A measured run of text. \<open>text'\<close> is the sequence of the string's code units.\<close>

record inline =
  text' :: string
  width :: real
  noWrap :: bool
  noNewLine :: bool
  font :: string
  fontSize :: real
  characterSpacing :: real
  fontFeatures :: "string list"
  tocItemRef' :: "ref option"
  pageRef' :: "pageRef option"
  pageNodeRef' :: "ref option"

text \<open>
  A \<open>Line\<close>: the fields the builder reads and writes. What the class keeps for itself is the
  extension part of the record scheme.
\<close>

record line =
  inlines :: "inline list"
  lastLineInParagraph :: bool
  pageNodeRef' :: "ref option"

text \<open>
  A canvas vector. \<open>vec_resetXY\<close> is the closure \<open>decorateNode\<close> attaches: the six
  coordinates it captured, or \<open>None\<close> when the vector was never decorated.
\<close>

record vector =
  vx :: "real option"
  vy :: "real option"
  vx1 :: "real option"
  vy1 :: "real option"
  vx2 :: "real option"
  vy2 :: "real option"
  vec_resetXY ::
    "(real option \<times> real option \<times> real option \<times> real option \<times> real option \<times> real option) option"

record tableWidth =
  calcWidth' :: real

datatype heightValue = HeightAuto | HeightNum real | HeightUndefined

datatype rowHeights =
  HeightsFunction "nat \<Rightarrow> heightValue"
| HeightsArray "heightValue list"
| HeightsValue heightValue

record table =
  body :: "ref list list"
  widths :: "tableWidth list"
  heights :: rowHeights

record toc =
  title :: "ref option"
  table' :: "ref option"

record xy =
  xy_x :: "real option"
  xy_y :: "real option"

text \<open>The fifteen keys \<open>addPageBreaksIfNecessary\<close> copies from a node into its summary.\<close>

record node_keys =
  id' :: "string option"
  text' :: "string option"
  ul :: "ref list option"
  ol :: "ref list option"
  table :: "table option"
  image' :: "string option"
  qr :: "string option"
  canvas :: "vector list option"
  columns :: "ref list option"
  headlineLevel :: "int option"
  style :: "string option"
  pageBreak :: "string option"
  pageOrientation :: "string option"
  width :: "real option"
  height :: "real option"

record nodeInfo = node_keys +
  startPosition :: "position option"
  pageNumbers :: "int list"
  pages :: nat
  stack :: bool

text \<open>
  A document node. \<open>resetXY\<close> is the closure \<open>decorateNode\<close> attaches: the coordinates it
  captured, or \<open>None\<close> when the node was never decorated.
\<close>

record node = node_keys +
  positions :: "position list"
  pageBreakCalculated :: bool
  nodeInfo :: "nodeInfo option"
  stack :: "ref list option"
  toc :: "toc option"
  span' :: bool
  margin' :: "(real \<times> real \<times> real \<times> real) option"
  unbreakable :: bool
  absolutePosition :: "xy option"
  relativePosition :: "xy option"
  node_x :: "real option"
  node_y :: "real option"
  resetXY :: "(real option \<times> real option) option"
  inlines' :: "inline list option"
  maxHeight :: "real option"
  tocItemRef' :: "ref option"
  pageRef' :: "pageRef option"
  colSpan :: "nat option"
  rowSpan :: "nat option"
  columnEndingContext' :: bool
  calcWidth' :: real
  gap' :: "real option"
  minHeight' :: real
  offsets' :: "real list"

text \<open>What the tracker's \<open>pageChanged\<close> event carries.\<close>

record pageBreakData =
  prevPage :: int
  prevY :: real
  y' :: real

text \<open>
  The state a traversal works on: the heap of nodes, the page writer with its document
  context (and every other object of the collaborators), the builder's \<open>linearNodeList\<close>,
  and the \<open>pageChanged\<close> events the tracker has emitted so far, oldest first.
\<close>

record 'w builder =
  heap :: "ref \<Rightarrow> node"
  writer :: 'w
  linearNodeList :: "ref list"
  pageChanged :: "pageBreakData list"

record rowResult =
  pageBreaks :: "pageBreakData list"
  positions :: "position list"

record 'pg layoutResult =
  pages :: "'pg list"
  linearNodeList :: "ref list"

text \<open>The second and third argument of \<open>processRow\<close>: column nodes or width objects.\<close>

datatype widthsArg = NodeWidths "ref list" | ObjectWidths "tableWidth list"

subsection \<open>Collaborators\<close>

record ('w, 'l) collab =
  availableWidth :: "'w builder \<Rightarrow> real"
  availableHeight :: "'w builder \<Rightarrow> real"
  context_x :: "'w builder \<Rightarrow> real"
  context_y :: "'w builder \<Rightarrow> real"
  moveToNextPage :: "string option \<Rightarrow> 'w builder \<Rightarrow> 'w builder"
  moveDown :: "real \<Rightarrow> 'w builder \<Rightarrow> 'w builder"
  addMargin :: "real \<Rightarrow> real \<Rightarrow> 'w builder \<Rightarrow> 'w builder"
  beginUnbreakableBlock :: "'w builder \<Rightarrow> 'w builder"
  commitUnbreakableBlock :: "'w builder \<Rightarrow> 'w builder"
  beginDetachedBlock :: "'w builder \<Rightarrow> 'w builder"
  endDetachedBlock :: "'w builder \<Rightarrow> 'w builder"
  moveTo :: "real \<Rightarrow> real \<Rightarrow> 'w builder \<Rightarrow> 'w builder"
  beginColumnGroup :: "'w builder \<Rightarrow> 'w builder"
  beginColumn :: "number \<Rightarrow> real \<Rightarrow> ref option \<Rightarrow> 'w builder \<Rightarrow> 'w builder"
  markEnding :: "ref \<Rightarrow> 'w builder \<Rightarrow> 'w builder"
  completeColumnGroup :: "real option \<Rightarrow> 'w builder \<Rightarrow> 'w builder"
  addLine :: "'l line_scheme \<Rightarrow> 'w builder \<Rightarrow> position \<times> 'w builder"
  addImage :: "ref \<Rightarrow> 'w builder \<Rightarrow> position \<times> 'w builder"
  addQr :: "ref \<Rightarrow> 'w builder \<Rightarrow> position \<times> 'w builder"
  addVector :: "ref \<Rightarrow> nat \<Rightarrow> 'w builder \<Rightarrow> position \<times> 'w builder"
  alignCanvas :: "ref \<Rightarrow> 'w builder \<Rightarrow> 'w builder"
  buildColumnWidths :: "ref list \<Rightarrow> real \<Rightarrow> 'w builder \<Rightarrow> 'w builder"
  beginTable :: "ref \<Rightarrow> 'w builder \<Rightarrow> 'w builder"
  beginRow :: "ref \<Rightarrow> nat \<Rightarrow> 'w builder \<Rightarrow> 'w builder"
  endRow :: "ref \<Rightarrow> nat \<Rightarrow> pageBreakData list \<Rightarrow> 'w builder \<Rightarrow> 'w builder"
  endTable :: "ref \<Rightarrow> 'w builder \<Rightarrow> 'w builder"
  newLine :: "real \<Rightarrow> 'l line_scheme"
  hasEnoughSpaceForInline :: "'l line_scheme \<Rightarrow> inline \<Rightarrow> inline list \<Rightarrow> bool"
  getAvailableWidth :: "'l line_scheme \<Rightarrow> real"
  addInline :: "'l line_scheme \<Rightarrow> inline \<Rightarrow> 'l line_scheme"
  getHeight :: "'l line_scheme \<Rightarrow> real"
  widthOfString :: "string \<Rightarrow> string \<Rightarrow> real \<Rightarrow> real \<Rightarrow> string list \<Rightarrow> real"
  stringifyNode :: "node \<Rightarrow> string"
  processList ::
    "(ref \<Rightarrow> 'w builder \<Rightarrow> 'w builder outcome) \<Rightarrow> bool \<Rightarrow> ref \<Rightarrow> 'w builder \<Rightarrow> 'w builder outcome"

subsection \<open>Text flow: \<open>buildNextLine\<close> and \<open>processLeaf\<close>\<close>

text \<open>
  The numbers of \<open>maxChars\<close>. The two divisions and the floor that give \<open>maxChars\<close> (source
  lines 641 and 642) decide at which character a run is split, so they are computed as the
  program computes them: in binary64, rounding to the nearest value, ties to the even
  significand. \<open>Finite r\<close> is the finite value \<open>r\<close>, and \<open>Finite 0\<close> is the positive zero.
\<close>

datatype double = Finite real | NegativeZero | PositiveInfinity | NegativeInfinity | NotANumber

text \<open>
  The binary exponent of a positive real \<open>a\<close>: the \<open>e\<close> with \<open>2 ^ e \<le> a < 2 ^ (e + 1)\<close>, kept
  between \<open>- 1022\<close>, the exponent of the subnormal values, and 1023. \<open>exponentUp\<close> looks
  for it from \<open>e\<close> upwards, \<open>exponentDown\<close> from \<open>- k\<close> downwards.
\<close>

function exponentUp :: "real \<Rightarrow> nat \<Rightarrow> nat" where
  "exponentUp a e = (if e < 1023 \<and> 2 ^ (e + 1) \<le> a then exponentUp a (e + 1) else e)"
  by pat_completeness auto
termination
  by (relation "measure (\<lambda>(a, e). 1023 - e)") auto

function exponentDown :: "real \<Rightarrow> nat \<Rightarrow> nat" where
  "exponentDown a k = (if k < 1022 \<and> a * 2 ^ k < 1 then exponentDown a (k + 1) else k)"
  by pat_completeness auto
termination
  by (relation "measure (\<lambda>(a, k). 1022 - k)") auto

declare exponentUp.simps [simp del] exponentDown.simps [simp del]

definition exponent :: "real \<Rightarrow> int" where
  "exponent a = (if 1 \<le> a then int (exponentUp a 0) else - int (exponentDown a 1))"

text \<open>\<open>scale y i\<close> is \<open>y\<close> times \<open>2\<close> to the power \<open>i\<close>.\<close>

definition scale :: "real \<Rightarrow> int \<Rightarrow> real" where
  "scale y i = (if 0 \<le> i then y * 2 ^ nat i else y / 2 ^ nat (- i))"

definition roundHalfEven :: "real \<Rightarrow> int" where
  "roundHalfEven y =
     (let f = \<lfloor>y\<rfloor>; d = y - of_int f
      in if d < 1 / 2 then f else if 1 / 2 < d then f + 1 else if even f then f else f + 1)"

text \<open>
  The binary64 value of a real: 53 significant bits at the exponent of the real, infinite
  from \<open>2 ^ 1024\<close> on, and a zero with the sign of the real when it rounds to zero.
\<close>

definition roundToDouble :: "real \<Rightarrow> double" where
  "roundToDouble v =
     (if v = 0 then Finite 0
      else
        (let a = \<bar>v\<bar>;
             e = exponent a;
             r = scale (of_int (roundHalfEven (scale a (52 - e)))) (e - 52)
         in if 2 ^ 1024 \<le> r then (if 0 < v then PositiveInfinity else NegativeInfinity)
            else if r = 0 then (if 0 < v then Finite 0 else NegativeZero)
            else Finite (if 0 < v then r else - r)))"

definition negative :: "double \<Rightarrow> bool" where
  "negative d =
     (case d of Finite r \<Rightarrow> r < 0 | NegativeZero \<Rightarrow> True | NegativeInfinity \<Rightarrow> True
      | PositiveInfinity \<Rightarrow> False | NotANumber \<Rightarrow> False)"

definition isInfinite :: "double \<Rightarrow> bool" where
  "isInfinite d = (d = PositiveInfinity \<or> d = NegativeInfinity)"

definition isZero :: "double \<Rightarrow> bool" where
  "isZero d = (d = Finite 0 \<or> d = NegativeZero)"

definition signedInfinity :: "bool \<Rightarrow> double" where
  "signedInfinity neg = (if neg then NegativeInfinity else PositiveInfinity)"

definition signedZero :: "bool \<Rightarrow> double" where
  "signedZero neg = (if neg then NegativeZero else Finite 0)"

definition finiteValue :: "double \<Rightarrow> real" where
  "finiteValue d = (case d of Finite r \<Rightarrow> r | _ \<Rightarrow> 0)"

text \<open>The operator \<open>/\<close> of JavaScript on two numbers.\<close>

definition divide_double :: "double \<Rightarrow> double \<Rightarrow> double" where
  "divide_double a b =
     (if a = NotANumber \<or> b = NotANumber then NotANumber
      else
        (let neg = (negative a \<noteq> negative b)
         in if isInfinite a then (if isInfinite b then NotANumber else signedInfinity neg)
            else if isInfinite b then signedZero neg
            else if isZero b then (if isZero a then NotANumber else signedInfinity neg)
            else if isZero a then signedZero neg
            else roundToDouble (finiteValue a / finiteValue b)))"

text \<open>\<open>Math.floor\<close>. The floor of a finite binary64 value is a binary64 value.\<close>

definition floor_double :: "double \<Rightarrow> double" where
  "floor_double d = (case d of Finite r \<Rightarrow> Finite (of_int \<lfloor>r\<rfloor>) | _ \<Rightarrow> d)"

text \<open>The operator \<open><\<close> of JavaScript on two numbers: false when one of them is \<open>NaN\<close>.\<close>

definition less_double :: "double \<Rightarrow> double \<Rightarrow> bool" where
  "less_double a b =
     (case a of
        NotANumber \<Rightarrow> False
      | PositiveInfinity \<Rightarrow> False
      | NegativeInfinity \<Rightarrow> b \<noteq> NotANumber \<and> b \<noteq> NegativeInfinity
      | _ \<Rightarrow>
          (case b of
             NotANumber \<Rightarrow> False
           | NegativeInfinity \<Rightarrow> False
           | PositiveInfinity \<Rightarrow> True
           | _ \<Rightarrow> finiteValue a < finiteValue b))"

text \<open>
  \<open>text.substr(start)\<close> and \<open>text.substr(0, length)\<close>. The argument is made an integer by
  truncation, \<open>NaN\<close> counting as 0; a negative start counts from the end of the text, and
  the result is cut to the text.
\<close>

definition truncated :: "real \<Rightarrow> int" where
  "truncated r = (if 0 \<le> r then \<lfloor>r\<rfloor> else \<lceil>r\<rceil>)"

definition substrFrom :: "string \<Rightarrow> double \<Rightarrow> string" where
  "substrFrom s start =
     (case start of
        Finite r \<Rightarrow>
          (let i = truncated r
           in if i < 0 then drop (nat (max (int (length s) + i) 0)) s else drop (nat i) s)
      | PositiveInfinity \<Rightarrow> []
      | _ \<Rightarrow> s)"

definition substrTo :: "string \<Rightarrow> double \<Rightarrow> string" where
  "substrTo s len =
     (case len of
        Finite r \<Rightarrow> take (nat (truncated r)) s
      | PositiveInfinity \<Rightarrow> s
      | _ \<Rightarrow> [])"

text \<open>
  \<open>maxChars\<close> as \<open>buildNextLine\<close> computes it (source lines 641 to 645): the available
  width over the width per character, floored, and 1 when that is less than 1. The quotient
  is infinite or \<open>NaN\<close> when the width per character is a zero; \<open>maxChars\<close> is then 1,
  infinite or \<open>NaN\<close>.
\<close>

definition maxChars :: "('w, 'l) collab \<Rightarrow> 'l line_scheme \<Rightarrow> inline \<Rightarrow> double" where
  "maxChars C lin inl =
     (let widthPerChar =
            divide_double (Finite (inline.width inl)) (Finite (real (length (inline.text' inl))));
          floored = floor_double (divide_double (Finite (getAvailableWidth C lin)) widthPerChar)
      in if less_double floored (Finite 1) then Finite 1 else floored)"

text \<open>
  The hard-wrap test of \<open>buildNextLine\<close> (source lines 640 to 658), for the run \<open>inl\<close> just
  shifted off the queue, whose remainder is \<open>rest\<close>. It gives the run to add to the line,
  the queue afterwards and \<open>isHardWrap\<close>.
\<close>

definition hardWrap ::
  "('w, 'l) collab \<Rightarrow> 'l line_scheme \<Rightarrow> inline \<Rightarrow> inline list \<Rightarrow> inline \<times> inline list \<times> bool"
where
  "hardWrap C lin inl rest =
     (if \<not> noWrap inl \<and> length (inline.text' inl) > 1 \<and> inline.width inl > getAvailableWidth C lin then
        if less_double (maxChars C lin inl) (Finite (real (length (inline.text' inl)))) then
        (let newInline = inl\<lparr>inline.text' := substrFrom (inline.text' inl) (maxChars C lin inl)\<rparr>;
             inl1 = inl\<lparr>inline.text' := substrTo (inline.text' inl) (maxChars C lin inl)\<rparr>;
             newInline1 = newInline\<lparr>inline.width :=
               widthOfString C (inline.text' newInline) (inline.font newInline)
                 (inline.fontSize newInline) (characterSpacing newInline) (fontFeatures newInline)\<rparr>;
             inl2 = inl1\<lparr>inline.width :=
               widthOfString C (inline.text' inl1) (inline.font inl1)
                 (inline.fontSize inl1) (characterSpacing inl1) (fontFeatures inl1)\<rparr>
         in (inl2, newInline1 # rest, True))
        else (inl, rest, False)
      else (inl, rest, False))"

text \<open>When \<open>maxChars\<close> is less than the length of the text it is a whole number from 1 on.\<close>

lemma maxChars_less:
  assumes "less_double (maxChars C lin inl) (Finite (real n))"
  shows "\<exists>k. maxChars C lin inl = Finite (real k) \<and> 1 \<le> k \<and> k < n"
proof -
  define q where "q = divide_double (Finite (getAvailableWidth C lin))
      (divide_double (Finite (inline.width inl)) (Finite (real (length (inline.text' inl)))))"
  have m: "maxChars C lin inl
      = (if less_double (floor_double q) (Finite 1) then Finite 1 else floor_double q)"
    by (simp add: maxChars_def q_def Let_def)
  show ?thesis
  proof (cases "less_double (floor_double q) (Finite 1)")
    case True
    with m assms have "maxChars C lin inl = Finite (real 1)" "1 < n"
      by (simp_all add: less_double_def finiteValue_def)
    then show ?thesis by (intro exI [of _ 1]) simp
  next
    case False
    with m have mq: "maxChars C lin inl = floor_double q" by simp
    show ?thesis
    proof (cases q)
      case (Finite r)
      with False have "\<not> real_of_int \<lfloor>r\<rfloor> < 1"
        by (simp add: less_double_def floor_double_def finiteValue_def)
      then have "1 \<le> \<lfloor>r\<rfloor>" by linarith
      moreover from Finite mq assms have "real_of_int \<lfloor>r\<rfloor> < real n"
        by (simp add: less_double_def floor_double_def finiteValue_def)
      then have "\<lfloor>r\<rfloor> < int n" by linarith
      ultimately have "real (nat \<lfloor>r\<rfloor>) = of_int \<lfloor>r\<rfloor>" "1 \<le> nat \<lfloor>r\<rfloor>" "nat \<lfloor>r\<rfloor> < n"
        by linarith+
      with Finite mq show ?thesis
        by (intro exI [of _ "nat \<lfloor>r\<rfloor>"]) (simp add: floor_double_def)
    qed (use False mq assms in \<open>simp_all add: less_double_def floor_double_def finiteValue_def\<close>)
  qed
qed

lemma truncated_nat: "truncated (real k) = int k"
  by (simp add: truncated_def)

lemma substr_nat:
  "substrFrom s (Finite (real k)) = drop k s" "substrTo s (Finite (real k)) = take k s"
  by (simp_all add: substrFrom_def substrTo_def truncated_nat)

text \<open>What a hard wrap gives: the head and the tail of the text at \<open>maxChars\<close>.\<close>

lemma hardWrap_True:
  assumes "hardWrap C lin inl rest = (hd_run, q, True)"
  shows "\<exists>k. maxChars C lin inl = Finite (real k) \<and> 1 \<le> k \<and> k < length (inline.text' inl)
    \<and> q = inl\<lparr>inline.text' := drop k (inline.text' inl),
             inline.width := widthOfString C (drop k (inline.text' inl))
               (inline.font inl) (inline.fontSize inl) (characterSpacing inl) (fontFeatures inl)\<rparr> # rest
    \<and> hd_run = inl\<lparr>inline.text' := take k (inline.text' inl),
             inline.width := widthOfString C (take k (inline.text' inl))
               (inline.font inl) (inline.fontSize inl) (characterSpacing inl) (fontFeatures inl)\<rparr>"
proof -
  from assms have less: "less_double (maxChars C lin inl) (Finite (real (length (inline.text' inl))))"
    by (simp add: hardWrap_def Let_def split: if_splits)
  from maxChars_less [OF less] obtain k where
    k: "maxChars C lin inl = Finite (real k)" "1 \<le> k" "k < length (inline.text' inl)"
    by blast
  from assms less have "q = inl\<lparr>inline.text' := drop k (inline.text' inl),
             inline.width := widthOfString C (drop k (inline.text' inl))
               (inline.font inl) (inline.fontSize inl) (characterSpacing inl) (fontFeatures inl)\<rparr> # rest"
    "hd_run = inl\<lparr>inline.text' := take k (inline.text' inl),
             inline.width := widthOfString C (take k (inline.text' inl))
               (inline.font inl) (inline.fontSize inl) (characterSpacing inl) (fontFeatures inl)\<rparr>"
    unfolding hardWrap_def k(1) substr_nat by (simp_all add: Let_def split: if_splits)
  with k show ?thesis by blast
qed

text \<open>The measure of the pending queue that every round of the loop decreases.\<close>

definition pending :: "inline list \<Rightarrow> nat" where
  "pending q = sum_list (map (\<lambda>i. Suc (length (inline.text' i))) q)"

lemma hardWrap_pending:
  assumes "hardWrap C lin inl rest = (inl', q', hw)"
  shows "pending q' < pending (inl # rest)"
proof (cases hw)
  case True
  with assms have "hardWrap C lin inl rest = (inl', q', True)" by simp
  from hardWrap_True [OF this] show ?thesis
    by (auto simp: pending_def)
next
  case False
  with assms have "q' = rest"
    by (simp add: hardWrap_def Let_def split: if_splits)
  then show ?thesis by (simp add: pending_def)
qed

text \<open>The \<open>while\<close> loop of \<open>buildNextLine\<close>: the line, the queue, \<open>isForceContinue\<close>.\<close>

function buildNextLine_loop ::
  "('w, 'l) collab \<Rightarrow> 'l line_scheme \<Rightarrow> inline list \<Rightarrow> bool \<Rightarrow> 'l line_scheme \<times> inline list"
where
  "buildNextLine_loop C lin [] isForceContinue = (lin, [])"
| "buildNextLine_loop C lin (inl # rest) isForceContinue =
     (if hasEnoughSpaceForInline C lin inl rest \<or> isForceContinue then
        (case hardWrap C lin inl rest of
           (inl', q', isHardWrap) \<Rightarrow>
             buildNextLine_loop C (addInline C lin inl') q' (noNewLine inl' \<and> \<not> isHardWrap))
      else (lin, inl # rest))"
  by pat_completeness auto
termination
  by (relation "measure (\<lambda>(C, lin, q, f). pending q)") (auto dest: hardWrap_pending [OF sym])

declare buildNextLine_loop.simps [simp del]

definition buildNextLine ::
  "('w, 'l) collab \<Rightarrow> ref \<Rightarrow> 'w builder \<Rightarrow> 'l line_scheme option \<times> 'w builder"
where
  "buildNextLine C textNode st =
     (case inlines' (heap st textNode) of
        None \<Rightarrow> (None, st)
      | Some [] \<Rightarrow> (None, st)
      | Some (inl # rest) \<Rightarrow>
          (case buildNextLine_loop C (newLine C (availableWidth C st)) (inl # rest) False of
             (lin, q) \<Rightarrow>
               (Some (lin\<lparr>lastLineInParagraph := (length q = 0)\<rparr>),
                st\<lparr>heap := (heap st)(textNode := (heap st textNode)\<lparr>inlines' := Some q\<rparr>)\<rparr>)))"

text \<open>
  \<open>processLeaf\<close>. The two assignments to \<open>line._pageNodeRef\<close> are not guarded: on a line
  that is \<open>null\<close> they throw a TypeError.
\<close>

definition setPageNodeRefs :: "inline \<Rightarrow> inline" where
  "setPageNodeRefs inl =
     (let inl1 = (case inline.tocItemRef' inl of
                    Some t \<Rightarrow> inl\<lparr>inline.pageNodeRef' := Some t\<rparr> | None \<Rightarrow> inl)
      in case inline.pageRef' inl1 of
           Some p \<Rightarrow> inl1\<lparr>inline.pageNodeRef' := nodeRef' p\<rparr> | None \<Rightarrow> inl1)"

partial_function (option) processLeaf_loop ::
  "('w, 'l) collab \<Rightarrow> ref \<Rightarrow> real \<Rightarrow> 'l line_scheme option \<Rightarrow> real \<Rightarrow> 'w builder \<Rightarrow> 'w builder option"
where
  "processLeaf_loop C r maxHeight_r lin currentHeight st =
     (case lin of
        None \<Rightarrow> Some st
      | Some l \<Rightarrow>
          if maxHeight_r = - 1 \<or> currentHeight < maxHeight_r then
            (case addLine C l st of
               (pos, st1) \<Rightarrow>
                 (case buildNextLine C r
                         (st1\<lparr>heap := (heap st1)(r := (heap st1 r)
                                 \<lparr>node.positions := node.positions (heap st1 r) @ [pos]\<rparr>)\<rparr>) of
                    (lin', st2) \<Rightarrow>
                      processLeaf_loop C r maxHeight_r lin'
                        (case lin' of Some l' \<Rightarrow> currentHeight + getHeight C l' | None \<Rightarrow> currentHeight)
                        st2))
          else Some st)"

definition processLeaf :: "('w, 'l) collab \<Rightarrow> ref \<Rightarrow> 'w builder \<Rightarrow> 'w builder outcome" where
  "processLeaf C r st =
     (case buildNextLine C r st of
        (lin, st1) \<Rightarrow>
          (let currentHeight = (case lin of Some l \<Rightarrow> getHeight C l | None \<Rightarrow> 0);
               maxHeight_r = (case maxHeight (heap st1 r) of
                                Some h \<Rightarrow> if h = 0 then - 1 else h | None \<Rightarrow> - 1);
               lin1 = (case node.tocItemRef' (heap st1 r) of
                        None \<Rightarrow> Inr lin
                      | Some t \<Rightarrow>
                          (case lin of
                             None \<Rightarrow> Inl (TypeError ''Cannot set property _pageNodeRef of null'')
                           | Some l \<Rightarrow> Inr (Some (l\<lparr>line.pageNodeRef' := Some t\<rparr>))));
               lin2 = (case lin1 of
                        Inl e \<Rightarrow> Inl e
                      | Inr lin \<Rightarrow>
                          (case node.pageRef' (heap st1 r) of
                             None \<Rightarrow> Inr lin
                           | Some p \<Rightarrow>
                               (case lin of
                                  None \<Rightarrow> Inl (TypeError ''Cannot set property _pageNodeRef of null'')
                                | Some l \<Rightarrow> Inr (Some (l\<lparr>line.pageNodeRef' := nodeRef' p\<rparr>)))))
           in case lin2 of
                Inl e \<Rightarrow> throws e
              | Inr lin3 \<Rightarrow>
                  (case processLeaf_loop C r maxHeight_r
                          (map_option (\<lambda>l. l\<lparr>inlines := map setPageNodeRefs (inlines l)\<rparr>) lin3)
                          currentHeight st1 of
                     None \<Rightarrow> None
                   | Some st2 \<Rightarrow> returns st2)))"

subsection \<open>Rows and columns: \<open>processRow\<close>, \<open>processColumns\<close>, \<open>processTable\<close>\<close>

text \<open>A number as a template literal prints it (a column index, so a natural number).\<close>

fun decimal :: "nat \<Rightarrow> string" where
  "decimal n =
     (if n < 10 then [''0123456789'' ! n]
      else decimal (n div 10) @ [''0123456789'' ! (n mod 10)])"

text \<open>
  \<open>storePageBreakData\<close>, the handler \<open>processRow\<close> registers for \<open>pageChanged\<close>. The loop
  looks for the first descriptor with the event's previous page; \<open>findDesc\<close> is its index.
\<close>

fun findDesc :: "pageBreakData list \<Rightarrow> int \<Rightarrow> nat option" where
  "findDesc [] p = None"
| "findDesc (desc # ds) p = (if prevPage desc = p then Some 0 else map_option Suc (findDesc ds p))"

definition storePageBreakData :: "pageBreakData list \<Rightarrow> pageBreakData \<Rightarrow> pageBreakData list" where
  "storePageBreakData pbs data =
     (let (pbs1, k) = (case findDesc pbs (prevPage data) of
                         None \<Rightarrow> (pbs @ [data], length pbs)
                       | Some i \<Rightarrow> (pbs, i));
          pageDesc = pbs1 ! k
      in pbs1[k := pageDesc\<lparr>prevY := max (prevY pageDesc) (prevY data),
                             y' := min (y' pageDesc) (y' data)\<rparr>])"

definition colLeftOffset :: "real list option \<Rightarrow> nat \<Rightarrow> real" where
  "colLeftOffset gaps i =
     (case gaps of Some gs \<Rightarrow> if length gs > i then gs ! i else 0 | None \<Rightarrow> 0)"

text \<open>
  \<open>getEndingCell\<close>. Without a table body the read of \<open>tableBody.length\<close> is a TypeError;
  without a row index the ending row is \<open>NaN\<close>, no row is found and the index into it is
  a TypeError. A column index past the end of the ending row gives \<open>undefined\<close>.
\<close>

definition getEndingCell ::
  "node \<Rightarrow> nat \<Rightarrow> ref list list option \<Rightarrow> nat option \<Rightarrow> error + ref option"
where
  "getEndingCell column columnIndex tableBody tableRow =
     (case rowSpan column of
        None \<Rightarrow> Inr None
      | Some rs \<Rightarrow>
          if rs > 1 then
            (case tableBody of
               None \<Rightarrow> Inl (TypeError ''Cannot read property length of undefined'')
             | Some rows \<Rightarrow>
                 (case tableRow of
                    None \<Rightarrow> Inl (TypeError ''Cannot read property of undefined'')
                  | Some tr \<Rightarrow>
                      (let endingRow = tr + rs - 1
                       in if endingRow \<ge> length rows then
                            Inl (Thrown (''Row span for column '' @ decimal columnIndex
                                   @ '' (with indexes starting from 0) exceeded row count''))
                          else if columnIndex < length (rows ! endingRow) then
                            Inr (Some (rows ! endingRow ! columnIndex))
                          else Inr None)))
          else Inr None)"

text \<open>\<open>widths[i]._calcWidth\<close>: \<open>None\<close> when \<open>widths[i]\<close> is undefined and the read throws.\<close>

definition calcWidthAt :: "'w builder \<Rightarrow> widthsArg \<Rightarrow> nat \<Rightarrow> real option" where
  "calcWidthAt st ws i =
     (case ws of
        NodeWidths rs \<Rightarrow> if i < length rs then Some (node.calcWidth' (heap st (rs ! i))) else None
      | ObjectWidths os \<Rightarrow> if i < length os then Some (tableWidth.calcWidth' (os ! i)) else None)"

text \<open>
  The inner loop of \<open>processRow\<close> over a column span, \<open>width += widths[++i]._calcWidth +
  gaps[i]\<close>: the rounds left, the index, the width so far. It gives the width and the index
  after the loop.
\<close>

fun spanWidth ::
  "'w builder \<Rightarrow> widthsArg \<Rightarrow> real list option \<Rightarrow> nat \<Rightarrow> nat \<Rightarrow> number \<Rightarrow> error + (number \<times> nat)"
where
  "spanWidth st ws gaps 0 i w = Inr (w, i)"
| "spanWidth st ws gaps (Suc k) i w =
     (case calcWidthAt st ws (Suc i) of
        None \<Rightarrow> Inl (TypeError ''Cannot read property _calcWidth of undefined'')
      | Some c \<Rightarrow>
          (case gaps of
             None \<Rightarrow> Inl (TypeError ''Cannot read property of null'')
           | Some gs \<Rightarrow>
               spanWidth st ws gaps k (Suc i)
                 (plus_number w
                    (plus_number (Num c) (if Suc i < length gs then Num (gs ! Suc i) else NaN)))))"

lemma spanWidth_index: "spanWidth st ws gaps k i w = Inr (w', i') \<Longrightarrow> i' = i + k"
  by (induction st ws gaps k i w rule: spanWidth.induct) (auto split: option.splits)

text \<open>The width of the cell of column \<open>i\<close> and the index of the last column it covers.\<close>

definition cellWidth ::
  "'w builder \<Rightarrow> widthsArg \<Rightarrow> real list option \<Rightarrow> node \<Rightarrow> nat \<Rightarrow> real \<Rightarrow> error + (number \<times> nat)"
where
  "cellWidth st ws gaps column i w =
     (case colSpan column of
        Some n \<Rightarrow> if n > 1 then spanWidth st ws gaps (n - 1) i (Num w) else Inr (Num w, i)
      | None \<Rightarrow> Inr (Num w, i))"

lemma cellWidth_index: "cellWidth st ws gaps column i w = Inr (w', i') \<Longrightarrow> i \<le> i'"
  by (auto simp: cellWidth_def split: option.splits if_splits dest: spanWidth_index)

text \<open>
  The layout of one cell (source lines 445 to 452): the column is begun with the cell's
  width, its left offset and its ending cell, and a cell that is no span placeholder is
  handed to \<open>processNode\<close>, which is \<open>self\<close>. It gives the positions the row gains.
\<close>

definition layoutCell ::
  "('w, 'l) collab \<Rightarrow> (ref \<Rightarrow> 'w builder \<Rightarrow> 'w builder outcome) \<Rightarrow> ref \<Rightarrow> number \<Rightarrow> real
    \<Rightarrow> ref option \<Rightarrow> 'w builder \<Rightarrow> (position list \<times> 'w builder) outcome"
where
  "layoutCell C self column cw leftOffset endingCell st =
     (let st1 = beginColumn C cw leftOffset endingCell st
      in if \<not> span' (heap st1 column) then
           andThen (self column st1) (\<lambda>st2. returns (node.positions (heap st2 column), st2))
         else if columnEndingContext' (heap st1 column) then
           returns ([], markEnding C column st1)
         else returns ([], st1))"

text \<open>
  The loop of \<open>processRow\<close> over the columns, from index \<open>i\<close>, with the positions gathered so
  far. The ending cell is looked up with the index as the column span left it.
\<close>

function processRow_loop ::
  "('w, 'l) collab \<Rightarrow> (ref \<Rightarrow> 'w builder \<Rightarrow> 'w builder outcome) \<Rightarrow> ref list \<Rightarrow> widthsArg
    \<Rightarrow> real list option \<Rightarrow> ref list list option \<Rightarrow> nat option \<Rightarrow> nat \<Rightarrow> position list
    \<Rightarrow> 'w builder \<Rightarrow> (position list \<times> 'w builder) outcome"
where
  "processRow_loop C self cols ws gaps tableBody tableRow i acc st =
     (if i < length cols then
        (case calcWidthAt st ws i of
           None \<Rightarrow> throws (TypeError ''Cannot read property _calcWidth of undefined'')
         | Some w \<Rightarrow>
             (case cellWidth st ws gaps (heap st (cols ! i)) i w of
                Inl e \<Rightarrow> throws e
              | Inr (cw, i') \<Rightarrow>
                  (case getEndingCell (heap st (cols ! i)) i' tableBody tableRow of
                     Inl e \<Rightarrow> throws e
                   | Inr endingCell \<Rightarrow>
                       andThen (layoutCell C self (cols ! i) cw (colLeftOffset gaps i) endingCell st)
                         (\<lambda>(ps, st2).
                            processRow_loop C self cols ws gaps tableBody tableRow (Suc i')
                              (acc @ ps) st2))))
      else returns (acc, st))"
  by pat_completeness auto
termination
  by (relation "measure (\<lambda>(C, self, cols, ws, gaps, tableBody, tableRow, i, acc, st). length cols - i)")
     (auto dest: cellWidth_index)

declare processRow_loop.simps [simp del]

text \<open>
  \<open>processRow\<close>. The tracker calls \<open>storePageBreakData\<close> for every \<open>pageChanged\<close> event
  emitted between the registration and the end of the callback, in order.
\<close>

definition processRow ::
  "('w, 'l) collab \<Rightarrow> (ref \<Rightarrow> 'w builder \<Rightarrow> 'w builder outcome) \<Rightarrow> ref list \<Rightarrow> widthsArg option
    \<Rightarrow> real list option \<Rightarrow> ref list list option \<Rightarrow> nat option \<Rightarrow> real option
    \<Rightarrow> 'w builder \<Rightarrow> (rowResult \<times> 'w builder) outcome"
where
  "processRow C self cols ws gaps tableBody tableRow rowHeight st =
     andThen
       (processRow_loop C self cols (case ws of None \<Rightarrow> NodeWidths cols | Some w \<Rightarrow> w)
          gaps tableBody tableRow 0 [] (beginColumnGroup C st))
       (\<lambda>(acc, st2).
          (let st3 = completeColumnGroup C rowHeight st2
           in returns
                (\<lparr>pageBreaks =
                    foldl storePageBreakData [] (drop (length (pageChanged st)) (pageChanged st3)),
                  rowResult.positions = acc\<rparr>, st3)))"

definition gapArray :: "real option \<Rightarrow> ref list \<Rightarrow> real list option" where
  "gapArray gap cols =
     (case gap of
        None \<Rightarrow> None
      | Some g \<Rightarrow> if g = 0 then None else Some (0 # replicate (length cols - 1) g))"

definition addAll :: "ref \<Rightarrow> position list \<Rightarrow> 'w builder \<Rightarrow> 'w builder" where
  "addAll target ps st =
     st\<lparr>heap := (heap st)(target := (heap st target)
           \<lparr>node.positions := node.positions (heap st target) @ ps\<rparr>)\<rparr>"

definition processColumns ::
  "('w, 'l) collab \<Rightarrow> (ref \<Rightarrow> 'w builder \<Rightarrow> 'w builder outcome) \<Rightarrow> ref \<Rightarrow> 'w builder
    \<Rightarrow> 'w builder outcome"
where
  "processColumns C self columnNode st =
     (case columns (heap st columnNode) of
        None \<Rightarrow> throws (TypeError ''Cannot read property length of undefined'')
      | Some cols \<Rightarrow>
          (let gaps = gapArray (gap' (heap st columnNode)) cols;
               avail = (case gaps of
                          Some gs \<Rightarrow>
                            availableWidth C st
                              - (real (length gs) - 1) * (case gap' (heap st columnNode) of Some g \<Rightarrow> g | None \<Rightarrow> 0)
                        | None \<Rightarrow> availableWidth C st);
               st1 = buildColumnWidths C cols avail st
           in andThen (processRow C self cols (Some (NodeWidths cols)) gaps None None None st1)
                (\<lambda>(result, st2). returns (addAll columnNode (rowResult.positions result) st2))))"

definition rowHeightAt :: "rowHeights \<Rightarrow> nat \<Rightarrow> real option" where
  "rowHeightAt hs i =
     (case (case hs of
              HeightsFunction f \<Rightarrow> f i
            | HeightsArray a \<Rightarrow> if i < length a then a ! i else HeightUndefined
            | HeightsValue v \<Rightarrow> v) of
        HeightAuto \<Rightarrow> None
      | HeightNum h \<Rightarrow> Some h
      | HeightUndefined \<Rightarrow> None)"

text \<open>The loop of \<open>processTable\<close>: the rows left, the row index.\<close>

fun processTable_rows ::
  "('w, 'l) collab \<Rightarrow> (ref \<Rightarrow> 'w builder \<Rightarrow> 'w builder outcome) \<Rightarrow> ref \<Rightarrow> rowHeights \<Rightarrow> nat \<Rightarrow> nat
    \<Rightarrow> 'w builder \<Rightarrow> 'w builder outcome"
where
  "processTable_rows C self tableNode rowHeights 0 i st = returns st"
| "processTable_rows C self tableNode rowHeights (Suc k) i st =
     (let st1 = beginRow C tableNode i st
      in case table (heap st1 tableNode) of
           None \<Rightarrow> throws (TypeError ''Cannot read property body of undefined'')
         | Some t \<Rightarrow>
             if i < length (body t) then
               andThen
                 (processRow C self (body t ! i) (Some (ObjectWidths (widths t)))
                    (Some (offsets' (heap st1 tableNode))) (Some (body t)) (Some i)
                    (rowHeightAt rowHeights i) st1)
                 (\<lambda>(result, st2).
                    processTable_rows C self tableNode rowHeights k (Suc i)
                      (endRow C tableNode i (pageBreaks result)
                         (addAll tableNode (rowResult.positions result) st2)))
             else throws (TypeError ''Cannot read property length of undefined''))"

definition processTable ::
  "('w, 'l) collab \<Rightarrow> (ref \<Rightarrow> 'w builder \<Rightarrow> 'w builder outcome) \<Rightarrow> ref \<Rightarrow> 'w builder
    \<Rightarrow> 'w builder outcome"
where
  "processTable C self tableNode st =
     (let st1 = beginTable C tableNode st
      in case table (heap st1 tableNode) of
           None \<Rightarrow> throws (TypeError ''Cannot read property heights of undefined'')
         | Some t \<Rightarrow>
             andThen (processTable_rows C self tableNode (heights t) (length (body t)) 0 st1)
               (\<lambda>st2. returns (endTable C tableNode st2)))"

subsection \<open>The other node kinds\<close>

fun processItems ::
  "(ref \<Rightarrow> 'w builder \<Rightarrow> 'w builder outcome) \<Rightarrow> ref \<Rightarrow> ref list \<Rightarrow> 'w builder \<Rightarrow> 'w builder outcome"
where
  "processItems self r [] st = returns st"
| "processItems self r (item # items) st =
     andThen (self item st)
       (\<lambda>st1. processItems self r items (addAll r (node.positions (heap st1 item)) st1))"

definition processVerticalContainer ::
  "(ref \<Rightarrow> 'w builder \<Rightarrow> 'w builder outcome) \<Rightarrow> ref \<Rightarrow> 'w builder \<Rightarrow> 'w builder outcome"
where
  "processVerticalContainer self r st =
     (case node.stack (heap st r) of
        None \<Rightarrow> throws (TypeError ''Cannot read property forEach of undefined'')
      | Some items \<Rightarrow> processItems self r items st)"

text \<open>\<open>processToc\<close>. A table of contents without \<open>_table\<close> sends \<open>undefined\<close> to
  \<open>processNode\<close>, where \<open>decorateNode\<close> throws a TypeError.\<close>

definition processToc ::
  "(ref \<Rightarrow> 'w builder \<Rightarrow> 'w builder outcome) \<Rightarrow> ref \<Rightarrow> 'w builder \<Rightarrow> 'w builder outcome"
where
  "processToc self r st =
     (case toc (heap st r) of
        None \<Rightarrow> throws (TypeError ''Cannot read property title of undefined'')
      | Some t \<Rightarrow>
          andThen (case title t of Some ti \<Rightarrow> self ti st | None \<Rightarrow> returns st)
            (\<lambda>st1.
               case toc (heap st1 r) of
                 None \<Rightarrow> throws (TypeError ''Cannot read property _table of undefined'')
               | Some t1 \<Rightarrow>
                   (case table' t1 of
                      None \<Rightarrow> throws (TypeError ''Cannot read property x of undefined'')
                    | Some tb \<Rightarrow> self tb st1)))"

definition processImage :: "('w, 'l) collab \<Rightarrow> ref \<Rightarrow> 'w builder \<Rightarrow> 'w builder outcome" where
  "processImage C r st = (case addImage C r st of (pos, st1) \<Rightarrow> returns (addAll r [pos] st1))"

definition processQr :: "('w, 'l) collab \<Rightarrow> ref \<Rightarrow> 'w builder \<Rightarrow> 'w builder outcome" where
  "processQr C r st = (case addQr C r st of (pos, st1) \<Rightarrow> returns (addAll r [pos] st1))"

text \<open>The \<open>forEach\<close> of \<open>processCanvas\<close>: the vectors left, the index of the next one.\<close>

fun addVectors :: "('w, 'l) collab \<Rightarrow> ref \<Rightarrow> nat \<Rightarrow> nat \<Rightarrow> 'w builder \<Rightarrow> 'w builder" where
  "addVectors C r 0 i st = st"
| "addVectors C r (Suc k) i st =
     (case addVector C r i st of (pos, st1) \<Rightarrow> addVectors C r k (Suc i) (addAll r [pos] st1))"

definition processCanvas :: "('w, 'l) collab \<Rightarrow> ref \<Rightarrow> 'w builder \<Rightarrow> 'w builder outcome" where
  "processCanvas C r st =
     (let h = minHeight' (heap st r);
          st1 = (if absolutePosition (heap st r) = None \<and> availableHeight C st < h
                 then moveToNextPage C None st else st);
          st2 = alignCanvas C r st1
      in case canvas (heap st2 r) of
           None \<Rightarrow> throws (TypeError ''Cannot read property forEach of undefined'')
         | Some vs \<Rightarrow> returns (moveDown C h (addVectors C r (length vs) 0 st2)))"

subsection \<open>The dispatcher: \<open>decorateNode\<close> and \<open>processNode\<close>\<close>

definition decorateVector :: "vector \<Rightarrow> vector" where
  "decorateVector v = v\<lparr>vec_resetXY := Some (vx v, vy v, vx1 v, vy1 v, vx2 v, vy2 v)\<rparr>"

definition decorateNode :: "node \<Rightarrow> node" where
  "decorateNode n =
     n\<lparr>node.positions := [],
       canvas := map_option (map decorateVector) (canvas n),
       resetXY := Some (node_x n, node_y n)\<rparr>"

text \<open>A string is truthy when it is there and not empty.\<close>

definition truthy :: "string option \<Rightarrow> bool" where
  "truthy v = (case v of None \<Rightarrow> False | Some str \<Rightarrow> str \<noteq> [])"

text \<open>The chain of tests inside the callback of \<open>processNode\<close> (source lines 324 to 346).\<close>

definition dispatch ::
  "('w, 'l) collab \<Rightarrow> (ref \<Rightarrow> 'w builder \<Rightarrow> 'w builder outcome) \<Rightarrow> ref \<Rightarrow> 'w builder
    \<Rightarrow> 'w builder outcome"
where
  "dispatch C self r st =
     (let n = heap st r
      in if node.stack n \<noteq> None then processVerticalContainer self r st
         else if columns n \<noteq> None then processColumns C self r st
         else if ul n \<noteq> None then processList C self False r st
         else if ol n \<noteq> None then processList C self True r st
         else if table n \<noteq> None then processTable C self r st
         else if node_keys.text' n \<noteq> None then processLeaf C r st
         else if toc n \<noteq> None then processToc self r st
         else if truthy (image' n) then processImage C r st
         else if canvas n \<noteq> None then processCanvas C r st
         else if truthy (qr n) then processQr C r st
         else if \<not> span' n then
           throws (Thrown (''Unrecognized document structure: '' @ stringifyNode C n))
         else returns st)"

definition orZero :: "real option \<Rightarrow> real" where
  "orZero v = (case v of Some a \<Rightarrow> a | None \<Rightarrow> 0)"

text \<open>The function \<open>processNode\<close> passes to \<open>applyMargins\<close>.\<close>

definition callback ::
  "('w, 'l) collab \<Rightarrow> (ref \<Rightarrow> 'w builder \<Rightarrow> 'w builder outcome) \<Rightarrow> ref \<Rightarrow> 'w builder
    \<Rightarrow> 'w builder outcome"
where
  "callback C self r st =
     (let unbreakable_v = unbreakable (heap st r);
          st1 = (if unbreakable_v then beginUnbreakableBlock C st else st);
          absPosition = absolutePosition (heap st1 r);
          st2 = (case absPosition of
                   Some p \<Rightarrow> moveTo C (orZero (xy_x p)) (orZero (xy_y p)) (beginDetachedBlock C st1)
                 | None \<Rightarrow> st1);
          relPosition = relativePosition (heap st2 r);
          st3 = (case relPosition of
                   Some p \<Rightarrow>
                     (let s = beginDetachedBlock C st2
                      in moveTo C (orZero (xy_x p) + context_x C s) (orZero (xy_y p) + context_y C s) s)
                 | None \<Rightarrow> st2)
      in andThen (dispatch C self r st3)
           (\<lambda>st4.
              (let st5 = (if absPosition \<noteq> None \<or> relPosition \<noteq> None
                          then endDetachedBlock C st4 else st4)
               in returns (if unbreakable_v then commitUnbreakableBlock C st5 else st5))))"

definition applyMargins ::
  "('w, 'l) collab \<Rightarrow> ref \<Rightarrow> ('w builder \<Rightarrow> 'w builder outcome) \<Rightarrow> 'w builder \<Rightarrow> 'w builder outcome"
where
  "applyMargins C r cb st =
     (let margin = margin' (heap st r);
          st1 = (if pageBreak (heap st r) = Some ''before''
                 then moveToNextPage C (pageOrientation (heap st r)) st else st);
          st2 = (case margin of
                   Some (m0, m1, m2, m3) \<Rightarrow> addMargin C m0 m2 (moveDown C m1 st1)
                 | None \<Rightarrow> st1)
      in andThen (cb st2)
           (\<lambda>st3.
              (let st4 = (case margin of
                            Some (m0, m1, m2, m3) \<Rightarrow> moveDown C m3 (addMargin C (- m0) (- m2) st3)
                          | None \<Rightarrow> st3)
               in returns (if pageBreak (heap st4 r) = Some ''after''
                           then moveToNextPage C (pageOrientation (heap st4 r)) st4 else st4))))"

text \<open>\<open>processNode\<close>; \<open>self\<close> stands for its recursive calls.\<close>

definition processNode ::
  "('w, 'l) collab \<Rightarrow> (ref \<Rightarrow> 'w builder \<Rightarrow> 'w builder outcome) \<Rightarrow> ref \<Rightarrow> 'w builder
    \<Rightarrow> 'w builder outcome"
where
  "processNode C self r st =
     (let st1 = st\<lparr>builder.linearNodeList := builder.linearNodeList st @ [r]\<rparr>;
          st2 = st1\<lparr>heap := (heap st1)(r := decorateNode (heap st1 r))\<rparr>
      in applyMargins C r (callback C self r) st2)"

text \<open>
  The traversal with its recursive calls: \<open>processNode_fuel k\<close> follows the calls to depth
  \<open>k\<close> and does not return below that.
\<close>

fun processNode_fuel :: "nat \<Rightarrow> ('w, 'l) collab \<Rightarrow> ref \<Rightarrow> 'w builder \<Rightarrow> 'w builder outcome" where
  "processNode_fuel 0 C r st = None"
| "processNode_fuel (Suc k) C r st = processNode C (processNode_fuel k C) r st"

subsection \<open>The page-break loop: \<open>addPageBreaksIfNecessary\<close> and \<open>layoutDocument\<close>\<close>

text \<open>
  The caller's \<open>pageBreakBeforeFct\<close>. A JavaScript function may keep a state of its own
  between calls, so the model hands the state in and gets it back with the answer.
\<close>

type_synonym 'ps pageBreakFct =
  "'ps \<Rightarrow> nodeInfo \<Rightarrow> nodeInfo list \<Rightarrow> nodeInfo list \<Rightarrow> nodeInfo list \<Rightarrow> bool \<times> 'ps"

text \<open>\<open>array.indexOf(element)\<close>, for an element of the array.\<close>

fun indexOf :: "int list \<Rightarrow> int \<Rightarrow> nat" where
  "indexOf [] e = 0"
| "indexOf (a # as) e = (if a = e then 0 else Suc (indexOf as e))"

definition distinctPageNumbers :: "position list \<Rightarrow> int list" where
  "distinctPageNumbers ps =
     (let array = map pageNumber ps
      in map (\<lambda>i. array ! i) (filter (\<lambda>i. indexOf array (array ! i) = i) [0..<length array]))"

text \<open>The summary \<open>nodeInfo\<close> of a node, for a document of \<open>n\<close> pages.\<close>

definition summary :: "node \<Rightarrow> nat \<Rightarrow> nodeInfo" where
  "summary nd n =
     \<lparr>id' = id' nd, text' = node_keys.text' nd, ul = ul nd, ol = ol nd, table = table nd,
      image' = image' nd, qr = qr nd, canvas = canvas nd, columns = columns nd,
      headlineLevel = headlineLevel nd, style = style nd, pageBreak = pageBreak nd,
      pageOrientation = pageOrientation nd, width = node_keys.width nd,
      height = node_keys.height nd,
      startPosition = (case node.positions nd of [] \<Rightarrow> None | p # _ \<Rightarrow> Some p),
      pageNumbers = distinctPageNumbers (node.positions nd),
      pages = n,
      nodeInfo.stack = (node.stack nd \<noteq> None)\<rparr>"

definition summarize :: "nat \<Rightarrow> ref \<Rightarrow> (ref \<Rightarrow> node) \<Rightarrow> (ref \<Rightarrow> node)" where
  "summarize n r h = h(r := (h r)\<lparr>nodeInfo := Some (summary (h r) n)\<rparr>)"

text \<open>
  \<open>list.filter(node0 => node0.nodeInfo.pageNumbers.includes(p)).map(node => node.nodeInfo)\<close>.
  The page \<open>p\<close> is \<open>None\<close> when it is \<open>undefined\<close> or \<open>NaN\<close>, which no list of page numbers
  includes. A node without a summary makes the read of \<open>pageNumbers\<close> a TypeError.
\<close>

fun infosOnPage :: "(ref \<Rightarrow> node) \<Rightarrow> int option \<Rightarrow> ref list \<Rightarrow> error + nodeInfo list" where
  "infosOnPage h p [] = Inr []"
| "infosOnPage h p (r # rs) =
     (case nodeInfo (h r) of
        None \<Rightarrow> Inl (TypeError ''Cannot read property pageNumbers of undefined'')
      | Some info \<Rightarrow>
          (case infosOnPage h p rs of
             Inl e \<Rightarrow> Inl e
           | Inr infos \<Rightarrow>
               Inr (if (case p of Some q \<Rightarrow> q \<in> set (pageNumbers info) | None \<Rightarrow> False)
                    then info # infos else infos)))"

text \<open>
  The callback of \<open>linearNodeList.some\<close>, from index \<open>index\<close> on: whether a call of the
  predicate answered true, the state of the predicate and the heap afterwards.
\<close>

function scan ::
  "'ps pageBreakFct \<Rightarrow> ref list \<Rightarrow> nat \<Rightarrow> 'ps \<Rightarrow> (ref \<Rightarrow> node) \<Rightarrow> error + (bool \<times> 'ps \<times> (ref \<Rightarrow> node))"
where
  "scan f followingNodeList index ps h =
     (if index < length followingNodeList then
        (let r = followingNodeList ! index
         in if pageBreak (h r) \<noteq> Some ''before'' \<and> \<not> pageBreakCalculated (h r) then
              (let h1 = h(r := (h r)\<lparr>pageBreakCalculated := True\<rparr>)
               in case nodeInfo (h1 r) of
                    None \<Rightarrow> Inl (TypeError ''Cannot read property pageNumbers of undefined'')
                  | Some info \<Rightarrow>
                      (let pageNumber_v = (case pageNumbers info of [] \<Rightarrow> None | q # _ \<Rightarrow> Some q)
                       in case infosOnPage h1 pageNumber_v (drop (Suc index) followingNodeList) of
                            Inl e \<Rightarrow> Inl e
                          | Inr followingNodesOnPage \<Rightarrow>
                              (case infosOnPage h1 (map_option (\<lambda>q. q + 1) pageNumber_v)
                                      (drop (Suc index) followingNodeList) of
                                 Inl e \<Rightarrow> Inl e
                               | Inr nodesOnNextPage \<Rightarrow>
                                   (case infosOnPage h1 pageNumber_v (take index followingNodeList) of
                                      Inl e \<Rightarrow> Inl e
                                    | Inr previousNodesOnPage \<Rightarrow>
                                        (case f ps info followingNodesOnPage nodesOnNextPage
                                                previousNodesOnPage of
                                           (answer, ps') \<Rightarrow>
                                             if answer then
                                               Inr (True, ps', h1(r := (h1 r)\<lparr>pageBreak := Some ''before''\<rparr>))
                                             else scan f followingNodeList (Suc index) ps' h1)))))
            else scan f followingNodeList (Suc index) ps h)
      else Inr (False, ps, h))"
  by pat_completeness auto
termination
  by (relation "measure (\<lambda>(f, l, index, ps, h). length l - index)") auto

declare scan.simps [simp del]

definition addPageBreaksIfNecessary ::
  "'ps pageBreakFct option \<Rightarrow> 'ps \<Rightarrow> ref list \<Rightarrow> 'pg list \<Rightarrow> (ref \<Rightarrow> node)
    \<Rightarrow> error + (bool \<times> 'ps \<times> (ref \<Rightarrow> node))"
where
  "addPageBreaksIfNecessary pageBreakBeforeFct ps lst pgs h =
     (case pageBreakBeforeFct of
        None \<Rightarrow> Inr (False, ps, h)
      | Some f \<Rightarrow>
          (let filtered = filter (\<lambda>r. length (node.positions (h r)) > 0) lst
           in scan f filtered 0 ps (fold (summarize (length pgs)) filtered h)))"

text \<open>\<open>vector.resetXY()\<close> and \<open>node.resetXY()\<close>; calling what is not there is a TypeError.\<close>

definition callVectorResetXY :: "vector \<Rightarrow> error + vector" where
  "callVectorResetXY v =
     (case vec_resetXY v of
        None \<Rightarrow> Inl (TypeError ''vector.resetXY is not a function'')
      | Some (a, b, a1, b1, a2, b2) \<Rightarrow>
          Inr (v\<lparr>vx := a, vy := b, vx1 := a1, vy1 := b1, vx2 := a2, vy2 := b2\<rparr>))"

fun resetVectors :: "vector list \<Rightarrow> error + vector list" where
  "resetVectors [] = Inr []"
| "resetVectors (v # vs) =
     (case callVectorResetXY v of
        Inl e \<Rightarrow> Inl e
      | Inr v1 \<Rightarrow> (case resetVectors vs of Inl e \<Rightarrow> Inl e | Inr vs1 \<Rightarrow> Inr (v1 # vs1)))"

definition callResetXY :: "node \<Rightarrow> error + node" where
  "callResetXY nd =
     (case resetXY nd of
        None \<Rightarrow> Inl (TypeError ''node.resetXY is not a function'')
      | Some (a, b) \<Rightarrow>
          (case canvas nd of
             None \<Rightarrow> Inr (nd\<lparr>node_x := a, node_y := b\<rparr>)
           | Some vs \<Rightarrow>
               (case resetVectors vs of
                  Inl e \<Rightarrow> Inl e
                | Inr vs1 \<Rightarrow> Inr (nd\<lparr>node_x := a, node_y := b, canvas := Some vs1\<rparr>))))"

fun resetXYs :: "ref list \<Rightarrow> (ref \<Rightarrow> node) \<Rightarrow> error + (ref \<Rightarrow> node)" where
  "resetXYs [] h = Inr h"
| "resetXYs (r # rs) h =
     (case callResetXY (h r) of Inl e \<Rightarrow> Inl e | Inr nd \<Rightarrow> resetXYs rs (h(r := nd)))"

text \<open>
  What a call of \<open>layoutDocument\<close> gives: the pages it returns and the builder it leaves.
  \<open>attempts\<close> is not a value of the program: it counts the calls of \<open>tryLayoutDocument\<close>
  that the call made and that returned.
\<close>

record ('pg, 'w, 'ps) layoutRun =
  returned :: "'pg list"
  attempts :: nat
  finalBuilder :: "'w builder"
  finalPredicate :: 'ps

text \<open>
  The \<open>while\<close> loop of \<open>layoutDocument\<close>, entered with the result of the latest attempt.
  \<open>tryLayoutDocument\<close> is a parameter: any traversal of the document that gives pages and
  the list of the nodes it visited.
\<close>

partial_function (option) layoutDocument_loop ::
  "('w builder \<Rightarrow> ('pg layoutResult \<times> 'w builder) outcome) \<Rightarrow> 'ps pageBreakFct option
    \<Rightarrow> 'pg layoutResult \<Rightarrow> nat \<Rightarrow> 'ps \<Rightarrow> 'w builder \<Rightarrow> ('pg, 'w, 'ps) layoutRun outcome"
where
  "layoutDocument_loop tryLayoutDocument pageBreakBeforeFct result n ps st =
     (case addPageBreaksIfNecessary pageBreakBeforeFct ps (layoutResult.linearNodeList result)
             (pages result) (heap st) of
        Inl e \<Rightarrow> Some (Inl e)
      | Inr (again, ps1, h1) \<Rightarrow>
          if again then
            (case resetXYs (layoutResult.linearNodeList result) h1 of
               Inl e \<Rightarrow> Some (Inl e)
             | Inr h2 \<Rightarrow>
                 (case tryLayoutDocument (st\<lparr>heap := h2\<rparr>) of
                    None \<Rightarrow> None
                  | Some (Inl e) \<Rightarrow> Some (Inl e)
                  | Some (Inr (result1, st1)) \<Rightarrow>
                      layoutDocument_loop tryLayoutDocument pageBreakBeforeFct result1 (Suc n) ps1 st1))
          else
            Some (Inr \<lparr>returned = pages result, attempts = n,
                       finalBuilder = st\<lparr>heap := h1\<rparr>, finalPredicate = ps1\<rparr>))"

definition layoutDocument ::
  "('w builder \<Rightarrow> ('pg layoutResult \<times> 'w builder) outcome) \<Rightarrow> 'ps pageBreakFct option
    \<Rightarrow> 'ps \<Rightarrow> 'w builder \<Rightarrow> ('pg, 'w, 'ps) layoutRun outcome"
where
  "layoutDocument tryLayoutDocument pageBreakBeforeFct ps st =
     (case tryLayoutDocument st of
        None \<Rightarrow> None
      | Some (Inl e) \<Rightarrow> Some (Inl e)
      | Some (Inr (result, st1)) \<Rightarrow>
          layoutDocument_loop tryLayoutDocument pageBreakBeforeFct result 1 ps st1)"

subsection \<open>The watermark: \<open>getSize\<close>\<close>

record text_size =
  width :: real
  height :: real

record styleFrame =
  font :: "string option"
  bold :: "bool option"
  italics :: "bool option"
  fontSize :: "real option"

record pageSize =
  width :: real
  height :: real

record watermark =
  text' :: string
  font :: string
  bold :: bool
  italics :: bool

record watermark_size =
  size' :: "text_size option"
  fontSize :: real

text \<open>
  The binary search of \<open>getSize\<close>. \<open>sizeOfString\<close> is the text-metrics collaborator: the
  size of a string under a stack of style frames. The bounds \<open>a\<close>, \<open>b\<close> and the probe \<open>c\<close>
  are multiples of \<open>1000 / 1024\<close>, which a double holds exactly, so the reals follow the
  doubles of the program.
\<close>

partial_function (option) getSize_loop ::
  "(string \<Rightarrow> styleFrame list \<Rightarrow> text_size) \<Rightarrow> string \<Rightarrow> styleFrame list \<Rightarrow> real
    \<Rightarrow> real \<Rightarrow> real \<Rightarrow> real \<Rightarrow> text_size option \<Rightarrow> watermark_size option"
where
  "getSize_loop sizeOfString str styleContextStack targetWidth a b c sz =
     (if \<bar>a - b\<bar> > 1 then
        (let sz1 = sizeOfString str
               (styleContextStack
                  @ [\<lparr>styleFrame.font = None, bold = None, italics = None, fontSize = Some c\<rparr>])
         in if text_size.width sz1 > targetWidth then
              getSize_loop sizeOfString str styleContextStack targetWidth a c ((a + c) / 2) (Some sz1)
            else if text_size.width sz1 < targetWidth then
              getSize_loop sizeOfString str styleContextStack targetWidth c b ((c + b) / 2) (Some sz1)
            else
              getSize_loop sizeOfString str styleContextStack targetWidth a b c (Some sz1))
      else Some \<lparr>size' = sz, fontSize = c\<rparr>)"

definition getSize ::
  "(string \<Rightarrow> styleFrame list \<Rightarrow> text_size) \<Rightarrow> pageSize \<Rightarrow> watermark \<Rightarrow> watermark_size option"
where
  "getSize sizeOfString pgSize wm =
     (let w = pageSize.width pgSize;
          h = pageSize.height pgSize;
          targetWidth = sqrt (w * w + h * h) * 0.8;
          styleContextStack =
            [\<lparr>styleFrame.font = Some (watermark.font wm), bold = Some (watermark.bold wm),
              italics = Some (watermark.italics wm), fontSize = None\<rparr>]
      in getSize_loop sizeOfString (watermark.text' wm) styleContextStack targetWidth
           0 1000 ((0 + 1000) / 2) None)"

section \<open>Instances for witnesses and counterexamples\<close>

text \<open>
  A page writer that keeps no state and places everything on page 1, and a \<open>Line\<close> that
  keeps its maximal width and accepts a run while the widths fit. Every character is 10
  wide.
\<close>

definition plainCollab :: "('w, real) collab" where
  "plainCollab =
     \<lparr>availableWidth = (\<lambda>st. 30),
      availableHeight = (\<lambda>st. 100),
      context_x = (\<lambda>st. 0),
      context_y = (\<lambda>st. 0),
      moveToNextPage = (\<lambda>orientation st. st),
      moveDown = (\<lambda>d st. st),
      addMargin = (\<lambda>l r st. st),
      beginUnbreakableBlock = (\<lambda>st. st),
      commitUnbreakableBlock = (\<lambda>st. st),
      beginDetachedBlock = (\<lambda>st. st),
      endDetachedBlock = (\<lambda>st. st),
      moveTo = (\<lambda>a b st. st),
      beginColumnGroup = (\<lambda>st. st),
      beginColumn = (\<lambda>w offset endingCell st. st),
      markEnding = (\<lambda>r st. st),
      completeColumnGroup = (\<lambda>h st. st),
      addLine = (\<lambda>l st. (\<lparr>pageNumber = 1, left' = 0, top' = 0\<rparr>, st)),
      addImage = (\<lambda>r st. (\<lparr>pageNumber = 1, left' = 0, top' = 0\<rparr>, st)),
      addQr = (\<lambda>r st. (\<lparr>pageNumber = 1, left' = 0, top' = 0\<rparr>, st)),
      addVector = (\<lambda>r i st. (\<lparr>pageNumber = 1, left' = 0, top' = 0\<rparr>, st)),
      alignCanvas = (\<lambda>r st. st),
      buildColumnWidths = (\<lambda>cols avail st. st),
      beginTable = (\<lambda>r st. st),
      beginRow = (\<lambda>r i st. st),
      endRow = (\<lambda>r i pbs st. st),
      endTable = (\<lambda>r st. st),
      newLine = (\<lambda>maxWidth. \<lparr>inlines = [], lastLineInParagraph = False, line.pageNodeRef' = None, \<dots> = maxWidth\<rparr>),
      hasEnoughSpaceForInline = (\<lambda>l i rest. inlines l = [] \<or> sum_list (map inline.width (inlines l)) + inline.width i \<le> line.more l),
      getAvailableWidth = (\<lambda>l. line.more l - sum_list (map inline.width (inlines l))),
      addInline = (\<lambda>l i. l\<lparr>inlines := inlines l @ [i]\<rparr>),
      getHeight = (\<lambda>l. 12),
      widthOfString = (\<lambda>str f fs cs ff. real (length str) * 10),
      stringifyNode = (\<lambda>n. ''{}''),
      processList = (\<lambda>self ordered r st. returns st)\<rparr>"

definition emptyNode :: node where
  "emptyNode =
     \<lparr>id' = None, node_keys.text' = None, ul = None, ol = None, table = None, image' = None, qr = None,
      canvas = None, columns = None, headlineLevel = None, style = None, pageBreak = None,
      pageOrientation = None, node_keys.width = None, node_keys.height = None,
      node.positions = [], pageBreakCalculated = False, nodeInfo = None, stack = None, toc = None,
      span' = False, margin' = None, unbreakable = False, absolutePosition = None,
      relativePosition = None, node_x = None, node_y = None, resetXY = None, inlines' = None,
      maxHeight = None, tocItemRef' = None, pageRef' = None, colSpan = None, rowSpan = None,
      columnEndingContext' = False, calcWidth' = 0, gap' = None, minHeight' = 0, offsets' = []\<rparr>"

definition run :: "string \<Rightarrow> real \<Rightarrow> inline" where
  "run str w =
     \<lparr>inline.text' = str, inline.width = w, noWrap = False, noNewLine = False, inline.font = ''Roboto'',
      inline.fontSize = 12, characterSpacing = 0, fontFeatures = [], inline.tocItemRef' = None,
      inline.pageRef' = None, inline.pageNodeRef' = None\<rparr>"

definition emptyBuilder :: "unit builder" where
  "emptyBuilder = \<lparr>heap = (\<lambda>r. emptyNode), writer = (), builder.linearNodeList = [], pageChanged = []\<rparr>"

definition oneLeaf :: "unit builder" where
  "oneLeaf = emptyBuilder\<lparr>heap := (\<lambda>r. emptyNode)(0 := emptyNode\<lparr>node_keys.text' := Some ''abcdef'', inlines' := Some [run ''abcdef'' 60]\<rparr>)\<rparr>"

definition leafWithRef :: "unit builder" where
  "leafWithRef = emptyBuilder\<lparr>heap := (\<lambda>r. emptyNode)(0 := emptyNode\<lparr>node_keys.text' := Some [], inlines' := Some [], node.tocItemRef' := Some 1\<rparr>)\<rparr>"


text \<open>A text metric for which a string of one character is as wide as the font size.\<close>

definition fullEmWidth :: "string \<Rightarrow> styleFrame list \<Rightarrow> text_size" where
  "fullEmWidth str styleContextStack =
     (let fs = (case styleFrame.fontSize (last styleContextStack) of Some c \<Rightarrow> c | None \<Rightarrow> 12)
      in \<lparr>text_size.width = real (length str) * fs, height = fs\<rparr>)"

text \<open>A column whose layout changes the page once: the node \<open>r\<close> reports the change from
  page 1 with its own coordinates.\<close>

definition breakingColumn :: "ref \<Rightarrow> unit builder \<Rightarrow> unit builder outcome" where
  "breakingColumn r st =
     returns (st\<lparr>pageChanged := pageChanged st
                @ [\<lparr>prevPage = 1, prevY = 700 - 50 * real r, y' = 40 - 10 * real r\<rparr>]\<rparr>)"

text \<open>
  A page writer that keeps, for every column it begins, the width, the left offset and the
  ending cell it was given; a row of two columns whose first cell spans both columns and
  two rows; a layout of a cell's content that does nothing; a columns node without a gap
  whose first column spans two; two columns of width 100.
\<close>

definition loggingCollab :: "((number \<times> real \<times> ref option) list, real) collab" where
  "loggingCollab =
     plainCollab\<lparr>beginColumn := (\<lambda>w offset endingCell st. st\<lparr>writer := writer st @ [(w, offset, endingCell)]\<rparr>)\<rparr>"

definition spanBuilder :: "(number \<times> real \<times> ref option) list builder" where
  "spanBuilder =
     \<lparr>heap = (\<lambda>r. emptyNode\<lparr>span' := True\<rparr>)(0 := emptyNode\<lparr>colSpan := Some 2, rowSpan := Some 2\<rparr>),
      writer = [], builder.linearNodeList = [], pageChanged = []\<rparr>"

definition noLayout :: "ref \<Rightarrow> 'w builder \<Rightarrow> 'w builder outcome" where
  "noLayout r st = returns st"


definition twoWidths :: widthsArg where
  "twoWidths = ObjectWidths [\<lparr>tableWidth.calcWidth' = 100\<rparr>, \<lparr>tableWidth.calcWidth' = 100\<rparr>]"

text \<open>Instances for the page-break loop. A position on page \<open>q\<close>, and two nodes: the first
  on page 1 only, the second with a first line on page 1 and a second line on page 2.\<close>

definition onPage :: "int \<Rightarrow> position" where
  "onPage q = \<lparr>pageNumber = q, left' = 40, top' = 40\<rparr>"

definition twoNodes :: "ref \<Rightarrow> node" where
  "twoNodes =
     (\<lambda>r. emptyNode)
       (0 := emptyNode\<lparr>node.positions := [onPage 1]\<rparr>,
        1 := emptyNode\<lparr>node.positions := [onPage 1, onPage 2]\<rparr>)"

text \<open>A predicate that never asks for a break and keeps, for every call, the page numbers of
  the node and the first pages of the nodes it was given as nodes on the next page.\<close>

definition recordNextPage :: "(int list \<times> int option list) list pageBreakFct" where
  "recordNextPage ps info followingNodesOnPage nodesOnNextPage previousNodesOnPage =
     (False, ps @ [(pageNumbers info, map (\<lambda>i. map_option pageNumber (startPosition i)) nodesOnNextPage)])"

text \<open>A predicate that never asks for a break, and one that asks for a break at its first
  call and never again; its state tells whether it has been called.\<close>

definition neverBreak :: "unit pageBreakFct" where
  "neverBreak ps info followingNodesOnPage nodesOnNextPage previousNodesOnPage = (False, ps)"

definition breakOnce :: "bool pageBreakFct" where
  "breakOnce ps info followingNodesOnPage nodesOnNextPage previousNodesOnPage = (\<not> ps, True)"

text \<open>A traversal of a document of one node: the node is decorated and placed on page 1, or
  on a second page when a page break before it is asked for.\<close>

definition visitNode :: "unit builder \<Rightarrow> (int layoutResult \<times> unit builder) outcome" where
  "visitNode st =
     (let nd = decorateNode (heap st 0);
          broken = (pageBreak nd = Some ''before'')
      in returns (\<lparr>pages = (if broken then [1, 2] else [1]), layoutResult.linearNodeList = [0]\<rparr>,
                  st\<lparr>heap := (heap st)(0 := nd\<lparr>node.positions := [onPage (if broken then 2 else 1)]\<rparr>)\<rparr>))"

text \<open>The heap and the result of the first traversal of the empty builder, the heap when
  the scan has marked the node, the heap when the coordinates are reset, and the second
  traversal.\<close>

definition firstHeap :: "ref \<Rightarrow> node" where
  "firstHeap = (\<lambda>r. emptyNode)(0 := (decorateNode emptyNode)\<lparr>node.positions := [onPage 1]\<rparr>)"

definition firstResult :: "int layoutResult" where
  "firstResult = \<lparr>pages = [1], layoutResult.linearNodeList = [0]\<rparr>"

definition markedHeap :: "ref \<Rightarrow> node" where
  "markedHeap = firstHeap(0 := (firstHeap 0)\<lparr>nodeInfo := Some (summary (firstHeap 0) 1),
                  pageBreakCalculated := True, pageBreak := Some ''before''\<rparr>)"

definition resetHeap :: "ref \<Rightarrow> node" where
  "resetHeap = markedHeap(0 := (markedHeap 0)\<lparr>node_x := node_x emptyNode, node_y := node_y emptyNode\<rparr>)"

definition secondResult :: "int layoutResult" where
  "secondResult = \<lparr>pages = [1, 2], layoutResult.linearNodeList = [0]\<rparr>"

definition secondBuilder :: "unit builder" where
  "secondBuilder =
     emptyBuilder\<lparr>heap := resetHeap(0 := (decorateNode (resetHeap 0))\<lparr>node.positions := [onPage 2]\<rparr>)\<rparr>"

subsection \<open>Notions of the proofs\<close>

text \<open>What \<open>storePageBreakData\<close> makes of a descriptor that has the event's previous page.\<close>

definition merged :: "pageBreakData \<Rightarrow> pageBreakData \<Rightarrow> pageBreakData" where
  "merged d e = d\<lparr>prevY := max (prevY d) (prevY e), y' := min (y' d) (y' e)\<rparr>"

text \<open>The descriptors \<open>pbs\<close> are the events \<open>es\<close>, merged by previous page.\<close>

definition merge_inv :: "pageBreakData list \<Rightarrow> pageBreakData list \<Rightarrow> bool" where
  "merge_inv pbs es =
     (distinct (map prevPage pbs) \<and> prevPage ` set pbs = prevPage ` set es
      \<and> (\<forall>d\<in>set pbs.
            prevY d = Max (prevY ` {e \<in> set es. prevPage e = prevPage d})
          \<and> y' d = Min (y' ` {e \<in> set es. prevPage e = prevPage d})))"




text \<open>Every node of the list carries the summary of its own fields, for a document of
  \<open>n\<close> pages.\<close>

definition summarized :: "nat \<Rightarrow> ref list \<Rightarrow> (ref \<Rightarrow> node) \<Rightarrow> bool" where
  "summarized n lst h = (\<forall>r\<in>set lst. nodeInfo (h r) = Some (summary (h r) n))"

text \<open>The nodes of a list that have a position on page \<open>q\<close>.\<close>

definition touching :: "(ref \<Rightarrow> node) \<Rightarrow> int \<Rightarrow> ref list \<Rightarrow> ref list" where
  "touching h q rs = filter (\<lambda>r. q \<in> pageNumber ` set (node.positions (h r))) rs"

text \<open>A node without what the scan of the page breaks writes on it.\<close>

definition unmarked :: "node \<Rightarrow> node" where
  "unmarked nd = nd\<lparr>nodeInfo := None, pageBreakCalculated := False, pageBreak := None\<rparr>"

text \<open>The two heaps agree but for the summaries, the marks of the scan and the page breaks.\<close>

definition sameLayout :: "(ref \<Rightarrow> node) \<Rightarrow> (ref \<Rightarrow> node) \<Rightarrow> bool" where
  "sameLayout h h' = (\<forall>r. unmarked (h' r) = unmarked (h r))"

text \<open>A vector, a node as \<open>resetXY\<close> leaves it: with the coordinates the closure captured.\<close>

definition vectorRestored :: "vector \<Rightarrow> vector \<Rightarrow> bool" where
  "vectorRestored v v' =
     (vec_resetXY v = Some (vx v', vy v', vx1 v', vy1 v', vx2 v', vy2 v')
      \<and> vec_resetXY v' = vec_resetXY v)"

text \<open>A node without its coordinates and its vectors.\<close>

definition unplaced :: "node \<Rightarrow> node" where
  "unplaced nd = nd\<lparr>node_x := None, node_y := None, canvas := None\<rparr>"

text \<open>\<open>nd'\<close> is \<open>nd\<close> after its \<open>resetXY\<close>: the coordinates are those the closure captured,
  the vectors are restored, and nothing else has changed.\<close>

definition restored :: "node \<Rightarrow> node \<Rightarrow> bool" where
  "restored nd nd' =
     (resetXY nd = Some (node_x nd', node_y nd')
      \<and> resetXY nd' = resetXY nd
      \<and> rel_option (list_all2 vectorRestored) (canvas nd) (canvas nd')
      \<and> unplaced nd' = unplaced nd)"

text \<open>A node that \<open>decorateNode\<close> has decorated, with its vectors.\<close>

definition decorated :: "node \<Rightarrow> bool" where
  "decorated nd =
     (resetXY nd \<noteq> None
      \<and> (case canvas nd of None \<Rightarrow> True | Some vs \<Rightarrow> \<forall>v\<in>set vs. vec_resetXY v \<noteq> None))"

section \<open>Theorems\<close>

subsection \<open>Text flow\<close>

text \<open>
  The run \<open>abcdef\<close> of width 60, on a line of width 30: the width per character is 10, and
  \<open>maxChars\<close> is 3.
\<close>

lemma divide_60_6: "divide_double (Finite 60) (Finite 6) = Finite 10"
  by (simp add: divide_double_def negative_def isInfinite_def isZero_def finiteValue_def
      roundToDouble_def exponent_def exponentUp.simps scale_def roundHalfEven_def Let_def)

lemma divide_30_10: "divide_double (Finite 30) (Finite 10) = Finite 3"
  by (simp add: divide_double_def negative_def isInfinite_def isZero_def finiteValue_def
      roundToDouble_def exponent_def exponentUp.simps scale_def roundHalfEven_def Let_def)

lemma maxChars_abcdef:
  "maxChars plainCollab (newLine plainCollab 30) (run ''abcdef'' 60) = Finite 3"
  by (simp add: maxChars_def plainCollab_def run_def Let_def divide_60_6 divide_30_10
      floor_double_def less_double_def finiteValue_def)

lemma hardWrap_abcdef:
  "hardWrap plainCollab (newLine plainCollab 30) (run ''abcdef'' 60) []
     = ((run ''abc'' 30), [run ''def'' 30], True)"
  unfolding hardWrap_def maxChars_abcdef
  by (simp add: plainCollab_def run_def Let_def less_double_def finiteValue_def
      substrFrom_def substrTo_def truncated_def)

lemma buildNextLine_abcdef:
  "buildNextLine plainCollab 0 oneLeaf
     = (Some \<lparr>inlines = [run ''abc'' 30], lastLineInParagraph = False, line.pageNodeRef' = None, \<dots> = 30\<rparr>,
        oneLeaf\<lparr>heap := (heap oneLeaf)(0 := (heap oneLeaf 0)\<lparr>inlines' := Some [run ''def'' 30]\<rparr>)\<rparr>)"
  apply (simp add: buildNextLine_def oneLeaf_def emptyBuilder_def buildNextLine_loop.simps
      hardWrap_abcdef)
  apply (simp add: plainCollab_def run_def buildNextLine_loop.simps
      hardWrap_abcdef[unfolded plainCollab_def run_def, simplified])
  done

text \<open>
  The run \<open>abcdefghijklmn\<close> of width 18, on a line of width 9. The width per character,
  18 over 14, is rounded up to the next binary64 value, so the quotient of 9 by it is less
  than 7, and \<open>maxChars\<close> is 6: the program splits after \<open>abcdef\<close>.
\<close>

lemma divide_18_14:
  "divide_double (Finite 18) (Finite 14) = Finite (5790342378047781 / 4503599627370496)"
  by (simp add: divide_double_def negative_def isInfinite_def isZero_def finiteValue_def
      roundToDouble_def exponent_def exponentUp.simps scale_def roundHalfEven_def Let_def)

lemma divide_9_by_that:
  "divide_double (Finite 9) (Finite (5790342378047781 / 4503599627370496))
     = Finite (7881299347898367 / 1125899906842624)"
  by (simp add: divide_double_def negative_def isInfinite_def isZero_def finiteValue_def
      roundToDouble_def exponent_def exponentUp.simps scale_def roundHalfEven_def Let_def)

lemma maxChars_abcdefghijklmn:
  "maxChars plainCollab (newLine plainCollab 9) (run ''abcdefghijklmn'' 18) = Finite 6"
  by (simp add: maxChars_def plainCollab_def run_def Let_def divide_18_14 divide_9_by_that
      floor_double_def less_double_def finiteValue_def)

lemma hardWrap_abcdefghijklmn:
  "hardWrap plainCollab (newLine plainCollab 9) (run ''abcdefghijklmn'' 18) []
     = ((run ''abcdef'' 60), [run ''ghijklmn'' 80], True)"
  unfolding hardWrap_def maxChars_abcdefghijklmn
  by (simp add: plainCollab_def run_def Let_def less_double_def finiteValue_def
      substrFrom_def substrTo_def truncated_def)

text \<open>
  Claim C2. When \<open>buildNextLine\<close> hard-wraps a run \<open>inl\<close> (the test answers \<open>isHardWrap\<close>),
  the text of the run has more than one character and the split is at the character offset
  \<open>k\<close> with \<open>1 \<le> k < n\<close>, where \<open>n\<close> is the length of the text and \<open>k\<close> is what the program
  computes: the binary64 quotient of the available width by the binary64 width per
  character, floored, and 1 when that is less than 1. The head \<open>hd_run\<close> is the run handed
  to \<open>addInline\<close> and the tail \<open>tl_run\<close> is put at the front of the queue: the loop goes on
  with the line that received the head and the queue \<open>tl_run # rest\<close>. The two texts
  concatenate to the text of \<open>inl\<close>, neither is empty, and both widths are what
  \<open>widthOfString\<close> gives for the new texts.
\<close>

theorem hardWrap_split:
  assumes "hardWrap C lin inl rest = (hd_run, q, True)"
  shows "\<exists>k tl_run.
           1 < length (inline.text' inl)
         \<and> (let floored = floor_double
                  (divide_double (Finite (getAvailableWidth C lin))
                     (divide_double (Finite (inline.width inl))
                        (Finite (real (length (inline.text' inl))))))
            in if less_double floored (Finite 1) then Finite 1 else floored) = Finite (real k)
         \<and> 1 \<le> k \<and> k < length (inline.text' inl)
         \<and> q = tl_run # rest
         \<and> inline.text' hd_run = take k (inline.text' inl)
         \<and> inline.text' tl_run = drop k (inline.text' inl)
         \<and> inline.text' hd_run @ inline.text' tl_run = inline.text' inl
         \<and> inline.text' hd_run \<noteq> [] \<and> inline.text' tl_run \<noteq> []
         \<and> inline.width hd_run = widthOfString C (inline.text' hd_run) (inline.font inl)
              (inline.fontSize inl) (characterSpacing inl) (fontFeatures inl)
         \<and> inline.width tl_run = widthOfString C (inline.text' tl_run) (inline.font inl)
              (inline.fontSize inl) (characterSpacing inl) (fontFeatures inl)
         \<and> (\<forall>f. hasEnoughSpaceForInline C lin inl rest \<or> f \<longrightarrow>
               buildNextLine_loop C lin (inl # rest) f
                 = buildNextLine_loop C (addInline C lin hd_run) (tl_run # rest) False)"
proof -
  from hardWrap_True [OF assms] obtain k where
    k: "maxChars C lin inl = Finite (real k)" "1 \<le> k" "k < length (inline.text' inl)"
    and tl: "q = inl\<lparr>inline.text' := drop k (inline.text' inl),
             inline.width := widthOfString C (drop k (inline.text' inl))
               (inline.font inl) (inline.fontSize inl) (characterSpacing inl) (fontFeatures inl)\<rparr> # rest"
    and hd: "hd_run = inl\<lparr>inline.text' := take k (inline.text' inl),
             inline.width := widthOfString C (take k (inline.text' inl))
               (inline.font inl) (inline.fontSize inl) (characterSpacing inl) (fontFeatures inl)\<rparr>"
    by blast
  let ?tl = "inl\<lparr>inline.text' := drop k (inline.text' inl),
             inline.width := widthOfString C (drop k (inline.text' inl))
               (inline.font inl) (inline.fontSize inl) (characterSpacing inl) (fontFeatures inl)\<rparr>"
  have n: "1 < length (inline.text' inl)" using k(2,3) by simp
  have count: "(let floored = floor_double
                  (divide_double (Finite (getAvailableWidth C lin))
                     (divide_double (Finite (inline.width inl))
                        (Finite (real (length (inline.text' inl))))))
            in if less_double floored (Finite 1) then Finite 1 else floored) = Finite (real k)"
    using k(1) by (simp add: maxChars_def Let_def)
  have loop: "\<forall>f. hasEnoughSpaceForInline C lin inl rest \<or> f \<longrightarrow>
               buildNextLine_loop C lin (inl # rest) f
                 = buildNextLine_loop C (addInline C lin hd_run) (?tl # rest) False"
    using assms tl by (subst buildNextLine_loop.simps(2)) simp
  have texts: "inline.text' hd_run = take k (inline.text' inl)"
    "inline.text' ?tl = drop k (inline.text' inl)"
    using hd by simp_all
  have nonempty: "inline.text' hd_run \<noteq> []" "inline.text' ?tl \<noteq> []"
    using k(2,3) texts by auto
  have widths: "inline.width hd_run = widthOfString C (inline.text' hd_run) (inline.font inl)
              (inline.fontSize inl) (characterSpacing inl) (fontFeatures inl)"
     "inline.width ?tl = widthOfString C (inline.text' ?tl) (inline.font inl)
              (inline.fontSize inl) (characterSpacing inl) (fontFeatures inl)"
    using hd by simp_all
  have cat: "inline.text' hd_run @ inline.text' ?tl = inline.text' inl"
    using texts by simp
  show ?thesis
    by (intro exI [of _ k] exI [of _ ?tl] conjI n count k(2,3) tl texts nonempty widths cat loop)
qed

text \<open>
  The run \<open>abcdefghijklmn\<close> of width 18 on a line of width 9 is split after six characters,
  where the quotient of the reals would give seven: the head is \<open>abcdef\<close>, the tail
  \<open>ghijklmn\<close>, both are measured again, and the loop goes on with the tail.
\<close>

theorem hardWrap_split_witness:
  "(let C = (plainCollab :: (unit, real) collab);
        lin = newLine C 9;
        inl = run ''abcdefghijklmn'' 18
    in hardWrap C lin inl [] = (run ''abcdef'' 60, [run ''ghijklmn'' 80], True)
     \<and> (\<exists>k tl_run. k = (6::nat) \<and> [run ''ghijklmn'' 80] = [tl_run]
          \<and> inline.text' (run ''abcdef'' 60) = take k (inline.text' inl)
          \<and> inline.text' tl_run = drop k (inline.text' inl)
          \<and> inline.text' (run ''abcdef'' 60) @ inline.text' tl_run = ''abcdefghijklmn''
          \<and> inline.width (run ''abcdef'' 60) = widthOfString C ''abcdef'' ''Roboto'' 12 0 []
          \<and> inline.width tl_run = widthOfString C ''ghijklmn'' ''Roboto'' 12 0 [])
     \<and> buildNextLine_loop C lin [inl] False
          = buildNextLine_loop C (addInline C lin (run ''abcdef'' 60)) [run ''ghijklmn'' 80] False)"
proof -
  let ?C = "plainCollab :: (unit, real) collab"
  let ?lin = "newLine ?C 9"
  let ?inl = "run ''abcdefghijklmn'' 18"
  have h: "hardWrap ?C ?lin ?inl [] = (run ''abcdef'' 60, [run ''ghijklmn'' 80], True)"
    by (rule hardWrap_abcdefghijklmn)
  from hardWrap_split [OF h] obtain k tl_run where
    t: "[run ''ghijklmn'' 80] = [tl_run]"
      "inline.text' (run ''abcdef'' 60) = take k (inline.text' ?inl)"
      "inline.text' tl_run = drop k (inline.text' ?inl)"
      "inline.text' (run ''abcdef'' 60) @ inline.text' tl_run = inline.text' ?inl"
    and loop: "\<forall>f. hasEnoughSpaceForInline ?C ?lin ?inl [] \<or> f \<longrightarrow>
               buildNextLine_loop ?C ?lin [?inl] f
                 = buildNextLine_loop ?C (addInline ?C ?lin (run ''abcdef'' 60)) [tl_run] False"
    by blast
  from arg_cong [OF t(2), of length] have k: "k = 6"
    by (simp add: run_def)
  have cat: "inline.text' (run ''abcdef'' 60) @ inline.text' tl_run = ''abcdefghijklmn''"
    using t(4) by (simp add: run_def)
  have w: "inline.width (run ''abcdef'' 60) = widthOfString ?C ''abcdef'' ''Roboto'' 12 0 []"
    "inline.width tl_run = widthOfString ?C ''ghijklmn'' ''Roboto'' 12 0 []"
    using t(1) by (auto simp: run_def plainCollab_def)
  have "hasEnoughSpaceForInline ?C ?lin ?inl []"
    by (simp add: plainCollab_def)
  with loop t(1) have l: "buildNextLine_loop ?C ?lin [?inl] False
          = buildNextLine_loop ?C (addInline ?C ?lin (run ''abcdef'' 60)) [run ''ghijklmn'' 80] False"
    by simp
  have "\<exists>k tl_run. k = (6::nat) \<and> [run ''ghijklmn'' 80] = [tl_run]
          \<and> inline.text' (run ''abcdef'' 60) = take k (inline.text' ?inl)
          \<and> inline.text' tl_run = drop k (inline.text' ?inl)
          \<and> inline.text' (run ''abcdef'' 60) @ inline.text' tl_run = ''abcdefghijklmn''
          \<and> inline.width (run ''abcdef'' 60) = widthOfString ?C ''abcdef'' ''Roboto'' 12 0 []
          \<and> inline.width tl_run = widthOfString ?C ''ghijklmn'' ''Roboto'' 12 0 []"
    by (intro exI [of _ k] exI [of _ tl_run] conjI k t(1,2,3) cat w)
  with h l show ?thesis unfolding Let_def by (intro conjI)
qed

text \<open>
  Claim C7. \<open>buildNextLine\<close> returns no line exactly when the queue \<open>_inlines\<close> of the node is
  absent or empty at the call. When it returns a line, \<open>lastLineInParagraph\<close> of that line
  is true exactly when the queue it leaves behind, tails of hard wraps included, is empty.
\<close>

theorem buildNextLine_none_and_last:
  "(fst (buildNextLine C textNode st) = None)
      = (inlines' (heap st textNode) = None \<or> inlines' (heap st textNode) = Some [])
   \<and> (\<forall>l st'. buildNextLine C textNode st = (Some l, st') \<longrightarrow>
        lastLineInParagraph l = (inlines' (heap st' textNode) = Some []))"
  by (auto simp: buildNextLine_def split: option.splits list.splits prod.splits)

text \<open>The first line of the leaf \<open>abcdef\<close> leaves the tail \<open>def\<close> and is not the last.\<close>

theorem buildNextLine_none_and_last_witness:
  "fst (buildNextLine plainCollab 0 oneLeaf) \<noteq> None
   \<and> \<not> lastLineInParagraph (the (fst (buildNextLine plainCollab 0 oneLeaf)))
   \<and> inlines' (heap (snd (buildNextLine plainCollab 0 oneLeaf)) 0) \<noteq> Some []"
  using buildNextLine_none_and_last [of plainCollab 0 oneLeaf]
  by (simp add: buildNextLine_abcdef)

lemma buildNextLine_empty:
  "inlines' (heap st r) = None \<or> inlines' (heap st r) = Some [] \<Longrightarrow> buildNextLine C r st = (None, st)"
  by (auto simp: buildNextLine_def)

text \<open>
  Claim C5 does not hold of the code. A leaf with an empty queue and without \<open>_tocItemRef\<close>
  and \<open>_pageRef\<close> is left as it is: no line is emitted and the positions stay empty.
\<close>

lemma processLeaf_empty_queue:
  assumes "inlines' (heap st r) = None \<or> inlines' (heap st r) = Some []"
    and "node.tocItemRef' (heap st r) = None" and "node.pageRef' (heap st r) = None"
  shows "processLeaf C r st = returns st"
proof -
  have "buildNextLine C r st = (None, st)"
    using assms(1) by (rule buildNextLine_empty)
  then show ?thesis
    using assms(2,3) by (simp add: processLeaf_def processLeaf_loop.simps)
qed

text \<open>
  With \<open>_tocItemRef\<close> or \<open>_pageRef\<close> on the node the assignment to \<open>line._pageNodeRef\<close>
  runs on the \<open>null\<close> that \<open>buildNextLine\<close> returned, and \<open>processLeaf\<close> throws.
\<close>

lemma processLeaf_empty_queue_ref:
  assumes "inlines' (heap st r) = None \<or> inlines' (heap st r) = Some []"
    and "node.tocItemRef' (heap st r) \<noteq> None \<or> node.pageRef' (heap st r) \<noteq> None"
  shows "processLeaf C r st = throws (TypeError ''Cannot set property _pageNodeRef of null'')"
proof -
  have "buildNextLine C r st = (None, st)"
    using assms(1) by (rule buildNextLine_empty)
  then show ?thesis
    using assms(2) by (cases "node.tocItemRef' (heap st r)") (auto simp: processLeaf_def)
qed

text \<open>
  Claim C5, at a text leaf with an empty queue that carries \<open>_tocItemRef\<close>: the claim says
  \<open>processLeaf\<close> completes with an empty result; the code throws a TypeError.
\<close>

theorem processLeaf_tocItemRef_throws:
  "processLeaf plainCollab 0 leafWithRef
     = throws (TypeError ''Cannot set property _pageNodeRef of null'')"
  by (rule processLeaf_empty_queue_ref) (simp_all add: leafWithRef_def emptyBuilder_def emptyNode_def)

subsection \<open>The watermark\<close>

lemma getSize_loop_stuck:
  assumes "getSize_loop f str st tw a b c sz = Some r"
  shows "\<not> (f = fullEmWidth \<and> str = ''W'' \<and> tw = 500 \<and> a = 0 \<and> b = 1000 \<and> c = 500)"
proof (rule getSize_loop.raw_induct
    [where P = "\<lambda>f str st tw a b c sz r.
        \<not> (f = fullEmWidth \<and> str = ''W'' \<and> tw = 500 \<and> a = 0 \<and> b = 1000 \<and> c = 500)", OF _ assms])
  fix loop f str st tw a b c sz r
  assume IH: "\<And>f str st tw a b c sz r. loop f str st tw a b c sz = Some r \<Longrightarrow>
        \<not> (f = fullEmWidth \<and> str = ''W'' \<and> tw = 500 \<and> a = 0 \<and> b = 1000 \<and> c = (500::real))"
    and step: "(if 1 < \<bar>a - b\<bar>
      then let sz1 = f str (st @ [\<lparr>styleFrame.font = None, bold = None, italics = None, fontSize = Some c\<rparr>])
           in if tw < text_size.width sz1
              then loop f str st tw a c ((a + c) / 2) (Some sz1)
              else if text_size.width sz1 < tw
                   then loop f str st tw c b ((c + b) / 2) (Some sz1)
                   else loop f str st tw a b c (Some sz1)
      else Some \<lparr>size' = sz, fontSize = c\<rparr>) = Some r"
  show "\<not> (f = fullEmWidth \<and> str = ''W'' \<and> tw = 500 \<and> a = 0 \<and> b = 1000 \<and> c = 500)"
  proof
    assume h: "f = fullEmWidth \<and> str = ''W'' \<and> tw = 500 \<and> a = 0 \<and> b = 1000 \<and> c = 500"
    with step have "loop fullEmWidth ''W'' st 500 0 1000 500
        (Some (fullEmWidth ''W''
           (st @ [\<lparr>styleFrame.font = None, bold = None, italics = None, fontSize = Some 500\<rparr>])))
        = Some r"
      by (simp add: fullEmWidth_def Let_def)
    from IH [OF this] show False by simp
  qed
qed

lemma diagonal_375_500: "sqrt (375 * 375 + 500 * 500) = 625"
  by (rule real_sqrt_unique) simp_all

text \<open>
  Claim C6, on a page of 375 by 500 (diagonal 625, target width 500) and a watermark of one
  character that is as wide as the font size: the width measured at size 0 is 0, at size
  1000 it is 1000, the target lies strictly between, and the measure is monotone. The first
  probe, at size 500, measures the target exactly; neither bound moves and the loop does
  not end. The claim says it ends after a bounded number of rounds.
\<close>

theorem getSize_never_returns:
  "getSize fullEmWidth \<lparr>pageSize.width = 375, height = 500\<rparr>
     \<lparr>watermark.text' = ''W'', font = ''Roboto'', bold = False, italics = False\<rparr> = None"
proof (cases "getSize fullEmWidth \<lparr>pageSize.width = 375, height = 500\<rparr>
     \<lparr>watermark.text' = ''W'', font = ''Roboto'', bold = False, italics = False\<rparr>")
  case None
  then show ?thesis .
next
  case (Some r)
  then have "getSize_loop fullEmWidth ''W''
     [\<lparr>styleFrame.font = Some ''Roboto'', bold = Some False, italics = Some False, fontSize = None\<rparr>]
     500 0 1000 500 None = Some r"
    by (simp add: getSize_def Let_def diagonal_375_500)
  from getSize_loop_stuck [OF this] show ?thesis by simp
qed

subsection \<open>Rows and columns\<close>

lemma store_Nil: "storePageBreakData [] e = [e]"
  by (simp add: storePageBreakData_def)

lemma store_Cons:
  "storePageBreakData (d # ds) e =
     (if prevPage d = prevPage e then merged d e # ds else d # storePageBreakData ds e)"
  by (cases "findDesc ds (prevPage e)") (auto simp: storePageBreakData_def merged_def Let_def)

lemma store_pages:
  "map prevPage (storePageBreakData pbs e) =
     (if prevPage e \<in> prevPage ` set pbs then map prevPage pbs else map prevPage pbs @ [prevPage e])"
  by (induction pbs) (auto simp: store_Nil store_Cons merged_def)

lemma store_elems:
  assumes "distinct (map prevPage pbs)" and "d' \<in> set (storePageBreakData pbs e)"
  shows "(d' \<in> set pbs \<and> prevPage d' \<noteq> prevPage e)
       \<or> (\<exists>d\<in>set pbs. prevPage d = prevPage e \<and> d' = merged d e)
       \<or> (prevPage e \<notin> prevPage ` set pbs \<and> d' = e)"
  using assms
proof (induction pbs)
  case Nil
  then show ?case by (simp add: store_Nil)
next
  case (Cons d ds)
  show ?case
  proof (cases "prevPage d = prevPage e")
    case True
    with Cons.prems have "d' = merged d e \<or> d' \<in> set ds"
      by (auto simp: store_Cons)
    then show ?thesis
    proof
      assume "d' = merged d e"
      with True show ?thesis by auto
    next
      assume in_ds: "d' \<in> set ds"
      with Cons.prems(1) have "prevPage d' \<noteq> prevPage d"
        by (metis distinct.simps(2) imageI list.simps(9) set_map)
      with True in_ds show ?thesis by simp
    qed
  next
    case False
    with Cons.prems have "d' = d \<or> d' \<in> set (storePageBreakData ds e)"
      by (auto simp: store_Cons)
    then show ?thesis
    proof
      assume "d' = d"
      with False show ?thesis by simp
    next
      assume "d' \<in> set (storePageBreakData ds e)"
      with Cons.IH Cons.prems(1) False show ?thesis by auto
    qed
  qed
qed

lemma merge_inv_step:
  assumes "merge_inv pbs es"
  shows "merge_inv (storePageBreakData pbs e) (es @ [e])"
proof -
  from assms have dist: "distinct (map prevPage pbs)"
    and pgs: "prevPage ` set pbs = prevPage ` set es"
    and vals: "\<And>d. d \<in> set pbs \<Longrightarrow>
            prevY d = Max (prevY ` {e \<in> set es. prevPage e = prevPage d})
          \<and> y' d = Min (y' ` {e \<in> set es. prevPage e = prevPage d})"
    by (auto simp: merge_inv_def)
  have d1: "distinct (map prevPage (storePageBreakData pbs e))"
    using dist by (auto simp: store_pages)
  have "set (map prevPage (storePageBreakData pbs e)) = insert (prevPage e) (prevPage ` set pbs)"
    by (auto simp: store_pages)
  then have d2: "prevPage ` set (storePageBreakData pbs e) = prevPage ` set (es @ [e])"
    using pgs by auto
  have d3: "prevY d' = Max (prevY ` {x \<in> set (es @ [e]). prevPage x = prevPage d'})
          \<and> y' d' = Min (y' ` {x \<in> set (es @ [e]). prevPage x = prevPage d'})"
    if "d' \<in> set (storePageBreakData pbs e)" for d'
  proof -
    from store_elems [OF dist that] consider
      (old) "d' \<in> set pbs" "prevPage d' \<noteq> prevPage e"
      | (upd) d where "d \<in> set pbs" "prevPage d = prevPage e" "d' = merged d e"
      | (new) "prevPage e \<notin> prevPage ` set pbs" "d' = e"
      by blast
    then show ?thesis
    proof cases
      case old
      then have "{x \<in> set (es @ [e]). prevPage x = prevPage d'}
                   = {x \<in> set es. prevPage x = prevPage d'}"
        by auto
      then show ?thesis using vals [OF old(1)] by (simp only:)
    next
      case upd
      let ?S = "{x \<in> set es. prevPage x = prevPage d}"
      have "prevPage d \<in> prevPage ` set es" using upd(1) pgs by auto
      then have ne: "?S \<noteq> {}" by auto
      have fin: "finite ?S" by simp
      have "Max (prevY ` insert e ?S) = max (prevY e) (Max (prevY ` ?S))"
        using ne fin by simp
      moreover have "Min (y' ` insert e ?S) = min (y' e) (Min (y' ` ?S))"
        using ne fin by simp
      moreover have "{x \<in> set (es @ [e]). prevPage x = prevPage d'} = insert e ?S"
        using upd(2,3) by (auto simp: merged_def)
      ultimately show ?thesis
        using vals [OF upd(1)] upd(3)
        by (simp only: merged_def) (simp add: max.commute min.commute)
    next
      case new
      then have "\<And>x. x \<in> set es \<Longrightarrow> prevPage x \<noteq> prevPage e"
        using pgs by (metis imageI)
      with new(2) have "{x \<in> set (es @ [e]). prevPage x = prevPage d'} = {e}"
        by auto
      then show ?thesis by (simp only: new(2)) simp
    qed
  qed
  show ?thesis
    unfolding merge_inv_def using d1 d2 d3 by blast
qed

lemma merge_inv_foldl: "merge_inv (foldl storePageBreakData [] es) es"
proof (induction es rule: rev_induct)
  case Nil
  show ?case by (simp add: merge_inv_def)
next
  case (snoc e es)
  then show ?case by (simp add: merge_inv_step)
qed

lemma processRow_pageBreaks:
  assumes "processRow C self cols ws gaps tableBody tableRow rowHeight st = Some (Inr (result, st'))"
  shows "pageBreaks result
           = foldl storePageBreakData [] (drop (length (pageChanged st)) (pageChanged st'))"
  using assms
  by (auto simp: processRow_def andThen_def returns_def Let_def
      split: option.splits sum.splits prod.splits)

text \<open>
  Claim C3. The \<open>pageBreaks\<close> that \<open>processRow\<close> returns hold at most one descriptor per
  previous page, one for every previous page that an event of the row reported, and the
  descriptor of a previous page has the greatest \<open>prevY\<close> and the least \<open>y\<close> of the events
  reported with that previous page. The events of the row are those the tracker emitted
  between the entry of \<open>processRow\<close> and its return.
\<close>

theorem processRow_merges_pageBreaks:
  assumes "processRow C self cols ws gaps tableBody tableRow rowHeight st = Some (Inr (result, st'))"
  shows "distinct (map prevPage (pageBreaks result))
       \<and> prevPage ` set (pageBreaks result)
           = prevPage ` set (drop (length (pageChanged st)) (pageChanged st'))
       \<and> (\<forall>d\<in>set (pageBreaks result).
             prevY d = Max (prevY ` {e \<in> set (drop (length (pageChanged st)) (pageChanged st')).
                                     prevPage e = prevPage d})
           \<and> y' d = Min (y' ` {e \<in> set (drop (length (pageChanged st)) (pageChanged st')).
                                  prevPage e = prevPage d}))"
  using merge_inv_foldl [of "drop (length (pageChanged st)) (pageChanged st')"]
  unfolding processRow_pageBreaks [OF assms] merge_inv_def by blast

lemma processRow_two_columns:
  "processRow plainCollab breakingColumn [0, 1] None None None None None emptyBuilder
     = Some (Inr (\<lparr>pageBreaks = [\<lparr>prevPage = 1, prevY = 700, y' = 30\<rparr>], rowResult.positions = []\<rparr>,
                  emptyBuilder\<lparr>pageChanged := [\<lparr>prevPage = 1, prevY = 700, y' = 40\<rparr>,
                                                \<lparr>prevPage = 1, prevY = 650, y' = 30\<rparr>]\<rparr>))"
  by (simp add: processRow_def processRow_loop.simps layoutCell_def calcWidthAt_def cellWidth_def
      getEndingCell_def colLeftOffset_def plainCollab_def emptyBuilder_def emptyNode_def
      breakingColumn_def andThen_def returns_def storePageBreakData_def Let_def)

text \<open>Two columns that both break from page 1 give one descriptor.\<close>

theorem processRow_merges_pageBreaks_witness:
  "Max (prevY ` {e \<in> set [\<lparr>prevPage = 1, prevY = 700, y' = 40\<rparr>, \<lparr>prevPage = 1, prevY = 650, y' = 30\<rparr>].
                 prevPage e = 1}) = 700
   \<and> Min (y' ` {e \<in> set [\<lparr>prevPage = 1, prevY = 700, y' = 40\<rparr>, \<lparr>prevPage = 1, prevY = 650, y' = 30\<rparr>].
                 prevPage e = 1}) = 30"
  using processRow_merges_pageBreaks [OF processRow_two_columns]
  by (simp add: emptyBuilder_def)

lemma processRow_spanBuilder:
  "processRow loggingCollab noLayout [0, 1]
       (Some (ObjectWidths [\<lparr>tableWidth.calcWidth' = 100\<rparr>, \<lparr>tableWidth.calcWidth' = 100\<rparr>]))
       (Some [0, 0]) (Some [[0, 1], [2, 3]]) (Some 0) None spanBuilder
     = returns (\<lparr>pageBreaks = [], rowResult.positions = []\<rparr>, spanBuilder\<lparr>writer := [(Num 200, 0, Some 3)]\<rparr>)"
  by (simp add: processRow_def processRow_loop.simps layoutCell_def calcWidthAt_def cellWidth_def
      getEndingCell_def colLeftOffset_def loggingCollab_def plainCollab_def spanBuilder_def emptyNode_def
      noLayout_def Let_def numeral_2_eq_2)

lemma processRow_loop_rowSpan:
  assumes "i < length cols" and "calcWidthAt st ws i = Some w"
    and "cellWidth st ws gaps (heap st (cols ! i)) i w = Inr (cw, i')"
    and "rowSpan (heap st (cols ! i)) = Some rs" and "1 < rs"
  shows "(length rows \<le> tr + rs - 1 \<longrightarrow>
            processRow_loop C self cols ws gaps (Some rows) (Some tr) i acc st
              = throws (Thrown (''Row span for column '' @ decimal i'
                         @ '' (with indexes starting from 0) exceeded row count'')))
       \<and> (tr + rs - 1 < length rows \<longrightarrow>
            processRow_loop C self cols ws gaps (Some rows) (Some tr) i acc st
              = andThen
                  (layoutCell C self (cols ! i) cw (colLeftOffset gaps i)
                     (if i' < length (rows ! (tr + rs - 1)) then Some (rows ! (tr + rs - 1) ! i') else None)
                     st)
                  (\<lambda>(ps, st2).
                     processRow_loop C self cols ws gaps (Some rows) (Some tr) (Suc i') (acc @ ps) st2))"
  using assms
  by (subst (1 2) processRow_loop.simps) (simp add: getEndingCell_def Let_def)

lemma cellWidth_last_index:
  assumes "cellWidth st ws gaps column i w = Inr (cw, i')"
  shows "i' = (case colSpan column of Some n \<Rightarrow> if 1 < n then i + n - 1 else i | None \<Rightarrow> i)"
  using assms
  by (auto simp: cellWidth_def split: option.splits if_splits dest: spanWidth_index)













text \<open>
  Claim C9, as the code has it. A cell at row \<open>tr\<close> and column \<open>i\<close> that declares a row span
  \<open>rs\<close> above 1 has its ending cell looked up at row \<open>tr + rs - 1\<close> and column \<open>i'\<close>, the
  last column the cell covers: \<open>i + n - 1\<close> when the cell declares a column span \<open>n\<close> above
  1, else \<open>i\<close>. When the ending row is not a row of the table body, \<open>processRow\<close> throws
  the error that names column \<open>i'\<close>. Otherwise the lookup throws nothing, gives the cell at
  that place (none when the ending row is shorter), and the cell is laid out with it.
\<close>

theorem rowSpan_ending_cell:
  assumes "i < length cols" and "calcWidthAt st ws i = Some w"
    and "cellWidth st ws gaps (heap st (cols ! i)) i w = Inr (cw, i')"
    and "rowSpan (heap st (cols ! i)) = Some rs" and "1 < rs"
  shows "i' = (case colSpan (heap st (cols ! i)) of
                 Some n \<Rightarrow> if 1 < n then i + n - 1 else i | None \<Rightarrow> i)
       \<and> (length rows \<le> tr + rs - 1 \<longrightarrow>
            processRow_loop C self cols ws gaps (Some rows) (Some tr) i acc st
              = throws (Thrown (''Row span for column '' @ decimal i'
                         @ '' (with indexes starting from 0) exceeded row count'')))
       \<and> (tr + rs - 1 < length rows \<longrightarrow>
            getEndingCell (heap st (cols ! i)) i' (Some rows) (Some tr)
              = Inr (if i' < length (rows ! (tr + rs - 1))
                     then Some (rows ! (tr + rs - 1) ! i') else None)
          \<and> processRow_loop C self cols ws gaps (Some rows) (Some tr) i acc st
              = andThen
                  (layoutCell C self (cols ! i) cw (colLeftOffset gaps i)
                     (if i' < length (rows ! (tr + rs - 1))
                      then Some (rows ! (tr + rs - 1) ! i') else None)
                     st)
                  (\<lambda>(ps, st2).
                     processRow_loop C self cols ws gaps (Some rows) (Some tr) (Suc i') (acc @ ps) st2))"
  using processRow_loop_rowSpan [OF assms, of rows tr C self acc] cellWidth_last_index [OF assms(3)]
    assms(4,5)
  by (simp add: getEndingCell_def)

lemma spanBuilder_cell:
  "calcWidthAt spanBuilder twoWidths 0 = Some 100"
  "cellWidth spanBuilder twoWidths (Some [0, 0]) (heap spanBuilder ([0, 1] ! 0)) 0 100 = Inr (Num 200, 1)"
  "rowSpan (heap spanBuilder ([0, 1] ! 0)) = Some 2"
  by (simp_all add: calcWidthAt_def cellWidth_def twoWidths_def spanBuilder_def emptyNode_def
      numeral_2_eq_2)

text \<open>The cell that spans two columns and two rows, in a table of one row and of two.\<close>

theorem rowSpan_ending_cell_witness:
  "processRow_loop loggingCollab noLayout [0, 1] twoWidths (Some [0, 0]) (Some [[0, 1]]) (Some 0) 0 []
       spanBuilder
     = throws (Thrown ''Row span for column 1 (with indexes starting from 0) exceeded row count'')
   \<and> getEndingCell (heap spanBuilder ([0, 1] ! 0)) 1 (Some [[0, 1], [2, 3]]) (Some 0) = Inr (Some 3)"
proof -
  have "0 < length [0::nat, 1]" by simp
  note t = rowSpan_ending_cell [OF this spanBuilder_cell]
  have "processRow_loop loggingCollab noLayout [0, 1] twoWidths (Some [0, 0]) (Some [[0, 1]]) (Some 0) 0 []
       spanBuilder
     = throws (Thrown ''Row span for column 1 (with indexes starting from 0) exceeded row count'')"
    using t [where rows = "[[0, 1]]" and tr = 0 and C = loggingCollab and self = noLayout and acc = "[]",
        THEN conjunct2, THEN conjunct1]
    by simp
  moreover have "getEndingCell (heap spanBuilder ([0, 1] ! 0)) 1 (Some [[0, 1], [2, 3]]) (Some 0)
      = Inr (Some 3)"
    using t [where rows = "[[0, 1], [2, 3]]" and tr = 0 and C = loggingCollab and self = noLayout
        and acc = "[]", THEN conjunct2, THEN conjunct2]
    by simp
  ultimately show ?thesis by (rule conjI)
qed

text \<open>
  Claim C9 as stated fails for a cell that also spans columns. The cell at row 0 and column
  0 spans two rows and two columns of the table \<open>[[0, 1], [2, 3]]\<close>. The claim gives the
  ending cell \<open>tableBody[1][0]\<close>, which is node 2; the column is begun with node 3, which
  is \<open>tableBody[1][1]\<close>.
\<close>

theorem rowSpan_ending_cell_counterexample:
  "map (\<lambda>(w, offset, endingCell). endingCell)
       (writer (snd (projr (the
          (processRow loggingCollab noLayout [0, 1] (Some twoWidths) (Some [0, 0])
             (Some [[0, 1], [2, 3]]) (Some 0) None spanBuilder)))))
     = [Some 3]
   \<and> [[0, 1], [2, 3]] ! (0 + 2 - 1) ! 0 = (2::nat)"
  unfolding processRow_spanBuilder [folded twoWidths_def] returns_def
  by simp

subsection \<open>The dispatcher\<close>





lemma processItems_throws:
  "self item st = throws e \<Longrightarrow> processItems self r (item # items) st = throws e"
  by simp





subsection \<open>The page-break scan\<close>

lemma emptyNode_fields:
  "pageBreak emptyNode = None" "canvas emptyNode = None" "node.positions emptyNode = []"
  "pageBreakCalculated emptyNode = False" "nodeInfo emptyNode = None"
  by (simp_all add: emptyNode_def)

text \<open>The summaries: page numbers without duplicates, in the order of the first occurrence.\<close>

lemma indexOf_member:
  "e \<in> set as \<Longrightarrow> indexOf as e < length as \<and> as ! indexOf as e = e"
  by (induction as) auto

lemma indexOf_nth: "i < length as \<Longrightarrow> indexOf as (as ! i) \<le> i"
proof (induction as arbitrary: i)
  case Nil
  then show ?case by simp
next
  case (Cons a as)
  then show ?case by (cases i) auto
qed

lemma set_distinctPageNumbers: "set (distinctPageNumbers ps) = pageNumber ` set ps"
proof -
  let ?a = "map pageNumber ps"
  have "set (distinctPageNumbers ps) \<subseteq> set ?a"
    by (auto simp: distinctPageNumbers_def Let_def)
  moreover have "e \<in> set (distinctPageNumbers ps)" if "e \<in> set ?a" for e
  proof -
    from indexOf_member [OF that] have i: "indexOf ?a e < length ?a" "?a ! indexOf ?a e = e"
      by auto
    then have "indexOf ?a (?a ! indexOf ?a e) = indexOf ?a e" by simp
    with i show ?thesis
      unfolding distinctPageNumbers_def Let_def set_map set_filter
      by (intro image_eqI [where x = "indexOf ?a e"]) auto
  qed
  ultimately show ?thesis by auto
qed

lemma distinctPageNumbers_Cons:
  "\<exists>rest. distinctPageNumbers (p # ps) = pageNumber p # rest"
  by (simp add: distinctPageNumbers_def Let_def upt_conv_Cons del: upt_Suc)

lemma summary_nodeInfo_update [simp]: "summary (nd\<lparr>nodeInfo := v\<rparr>) n = summary nd n"
  by (simp add: summary_def)

lemma summary_calculated_update [simp]: "summary (nd\<lparr>pageBreakCalculated := v\<rparr>) n = summary nd n"
  by (simp add: summary_def)

lemma pageNumbers_summary [simp]:
  "pageNumbers (summary nd n) = distinctPageNumbers (node.positions nd)"
  by (simp add: summary_def)

lemma fold_summarize:
  "fold (summarize n) lst h r
     = (if r \<in> set lst then (h r)\<lparr>nodeInfo := Some (summary (h r) n)\<rparr> else h r)"
proof (induction lst arbitrary: h)
  case Nil
  show ?case by simp
next
  case (Cons a lst)
  show ?case
    by (simp add: Cons.IH) (simp add: summarize_def)
qed

lemma summarized_fold: "summarized n lst (fold (summarize n) lst h)"
  by (simp add: summarized_def fold_summarize)

lemma summarized_calculated:
  "summarized n lst h \<Longrightarrow> summarized n lst (h(r := (h r)\<lparr>pageBreakCalculated := True\<rparr>))"
  by (simp add: summarized_def)

lemma infosOnPage_summarized:
  assumes "\<forall>r\<in>set rs. nodeInfo (h1 r) = Some (summary (h r) n)"
  shows "infosOnPage h1 (Some q) rs = Inr (map (\<lambda>r. summary (h r) n) (touching h q rs))"
  using assms
  by (induction rs) (simp_all add: touching_def set_distinctPageNumbers)

text \<open>
  Claim C4, amended. In the scan, when the predicate is invoked for a node whose first
  position is on page \<open>p\<close>, its arguments are the summary of the node and three lists of
  summaries, each in the order of the visit: the later-visited nodes that have a position on
  page \<open>p\<close>, the later-visited nodes that have a position on page \<open>p + 1\<close>, and the
  earlier-visited nodes that have a position on page \<open>p\<close>. So the nodes on the next page are
  the later nodes that have any position on page \<open>p + 1\<close>, whatever the page of their first
  position. When the predicate answers true the node is marked with a page break before it
  and the scan ends; otherwise the scan goes on with the next node.
\<close>

theorem scan_invokes_predicate:
  assumes "summarized n lst h" and "index < length lst"
    and "pageBreak (h (lst ! index)) \<noteq> Some ''before''"
    and "\<not> pageBreakCalculated (h (lst ! index))"
    and "node.positions (h (lst ! index)) = pos # others"
  shows "scan f lst index ps h =
           (let r = lst ! index;
                h1 = h(r := (h r)\<lparr>pageBreakCalculated := True\<rparr>);
                q = pageNumber pos
            in case f ps (summary (h r) n)
                     (map (\<lambda>r'. summary (h r') n) (touching h q (drop (Suc index) lst)))
                     (map (\<lambda>r'. summary (h r') n) (touching h (q + 1) (drop (Suc index) lst)))
                     (map (\<lambda>r'. summary (h r') n) (touching h q (take index lst))) of
                 (answer, ps') \<Rightarrow>
                   if answer then Inr (True, ps', h1(r := (h1 r)\<lparr>pageBreak := Some ''before''\<rparr>))
                   else scan f lst (Suc index) ps' h1)
       \<and> summarized n lst (h((lst ! index) := (h (lst ! index))\<lparr>pageBreakCalculated := True\<rparr>))"
proof -
  let ?r = "lst ! index"
  let ?h1 = "h(?r := (h ?r)\<lparr>pageBreakCalculated := True\<rparr>)"
  have r: "?r \<in> set lst" using assms(2) by simp
  have info: "nodeInfo (?h1 ?r) = Some (summary (h ?r) n)"
    using assms(1) r by (simp add: summarized_def)
  obtain rest where pn: "distinctPageNumbers (node.positions (h ?r)) = pageNumber pos # rest"
    using distinctPageNumbers_Cons [of pos others] assms(5) by auto
  have all: "\<forall>r'\<in>set rs. nodeInfo (?h1 r') = Some (summary (h r') n)" if "set rs \<subseteq> set lst" for rs
    using assms(1) that by (auto simp: summarized_def)
  have a: "infosOnPage ?h1 (Some (pageNumber pos)) (drop (Suc index) lst)
      = Inr (map (\<lambda>r'. summary (h r') n) (touching h (pageNumber pos) (drop (Suc index) lst)))"
    by (rule infosOnPage_summarized) (rule all, rule set_drop_subset)
  have b: "infosOnPage ?h1 (Some (pageNumber pos + 1)) (drop (Suc index) lst)
      = Inr (map (\<lambda>r'. summary (h r') n) (touching h (pageNumber pos + 1) (drop (Suc index) lst)))"
    by (rule infosOnPage_summarized) (rule all, rule set_drop_subset)
  have c: "infosOnPage ?h1 (Some (pageNumber pos)) (take index lst)
      = Inr (map (\<lambda>r'. summary (h r') n) (touching h (pageNumber pos) (take index lst)))"
    by (rule infosOnPage_summarized) (rule all, rule set_take_subset)
  have "scan f lst index ps h =
           (case f ps (summary (h ?r) n)
                     (map (\<lambda>r'. summary (h r') n) (touching h (pageNumber pos) (drop (Suc index) lst)))
                     (map (\<lambda>r'. summary (h r') n) (touching h (pageNumber pos + 1) (drop (Suc index) lst)))
                     (map (\<lambda>r'. summary (h r') n) (touching h (pageNumber pos) (take index lst))) of
                 (answer, ps') \<Rightarrow>
                   if answer then Inr (True, ps', ?h1(?r := (?h1 ?r)\<lparr>pageBreak := Some ''before''\<rparr>))
                   else scan f lst (Suc index) ps' ?h1)"
    using assms(2,3,4)
    by (subst scan.simps) (simp add: Let_def info pn a b c del: fun_upd_apply)
  then show ?thesis
    using summarized_calculated [OF assms(1), of ?r] by (simp add: Let_def)
qed

theorem scan_invokes_predicate_witness:
  "scan recordNextPage [0, 1] 0 [] (fold (summarize 2) [0, 1] twoNodes)
     = scan recordNextPage [0, 1] 1 [([1], [Some 1])]
         ((fold (summarize 2) [0, 1] twoNodes)
            (0 := (fold (summarize 2) [0, 1] twoNodes 0)\<lparr>pageBreakCalculated := True\<rparr>))"
proof -
  define H where "H = fold (summarize 2) [0, 1] twoNodes"
  have p: "node.positions (H 0) = [onPage 1]" "node.positions (H (Suc 0)) = [onPage 1, onPage 2]"
    and h: "0 < length [0::nat, 1]" "pageBreak (H ([0, 1] ! 0)) \<noteq> Some ''before''"
      "\<not> pageBreakCalculated (H ([0, 1] ! 0))" "node.positions (H ([0, 1] ! 0)) = onPage 1 # []"
    by (simp_all add: H_def summarize_def twoNodes_def emptyNode_fields)
  have s: "summarized 2 [0, 1] H" unfolding H_def by (rule summarized_fold)
  have "scan recordNextPage [0, 1] 0 [] H
     = scan recordNextPage [0, 1] 1 [([1], [Some 1])] (H(0 := (H 0)\<lparr>pageBreakCalculated := True\<rparr>))"
    using scan_invokes_predicate [OF s h, of recordNextPage "[]", THEN conjunct1] p
    by (simp add: Let_def recordNextPage_def touching_def summary_def onPage_def
        distinctPageNumbers_def)
  then show ?thesis unfolding H_def .
qed

text \<open>
  Claim C4 as stated fails for a node that begins on page \<open>p\<close> and goes on to page
  \<open>p + 1\<close>. Of the two nodes, the first is on page 1 and the second has positions on pages
  1 and 2. The predicate, called for the first node, is given the second node among the nodes
  on the next page, and the first position of that node is on page 1.
\<close>

theorem scan_invokes_predicate_counterexample:
  "(case addPageBreaksIfNecessary (Some recordNextPage) [] [0, 1] [(), ()] twoNodes of
      Inr (again, ps, h) \<Rightarrow> ps | Inl e \<Rightarrow> [])
     = [([1], [Some 1]), ([1, 2], [])]
   \<and> map pageNumber (node.positions (twoNodes 1)) = [1, 2]"
  by code_simp

subsection \<open>The effect of a scan\<close>

lemma unmarked_updates [simp]:
  "unmarked (nd\<lparr>nodeInfo := i\<rparr>) = unmarked nd"
  "unmarked (nd\<lparr>pageBreakCalculated := c\<rparr>) = unmarked nd"
  "unmarked (nd\<lparr>pageBreak := p\<rparr>) = unmarked nd"
  by (simp_all add: unmarked_def)

lemma unmarked_fields:
  "resetXY (unmarked nd) = resetXY nd" "canvas (unmarked nd) = canvas nd"
  "node.positions (unmarked nd) = node.positions nd"
  by (simp_all add: unmarked_def)

lemma sameLayout_refl: "sameLayout h h"
  by (simp add: sameLayout_def)

lemma sameLayout_trans: "sameLayout h h' \<Longrightarrow> sameLayout h' h'' \<Longrightarrow> sameLayout h h''"
  by (simp add: sameLayout_def)

lemma sameLayout_calculated: "sameLayout h (h(r := (h r)\<lparr>pageBreakCalculated := v\<rparr>))"
  by (simp add: sameLayout_def)

lemma sameLayout_pageBreak: "sameLayout h (h(r := (h r)\<lparr>pageBreak := v\<rparr>))"
  by (simp add: sameLayout_def)

lemma sameLayout_summarize: "sameLayout h (fold (summarize n) lst h)"
  by (simp add: sameLayout_def fold_summarize)

lemma infosOnPage_ok:
  "\<forall>r\<in>set rs. nodeInfo (h r) \<noteq> None \<Longrightarrow> \<exists>infos. infosOnPage h q rs = Inr infos"
  by (induction rs) auto

lemma scan_cases:
  assumes "scan f lst i ps h = Inr res"
  obtains (ended) "length lst \<le> i" "res = (False, ps, h)"
  | (skip) "i < length lst" "scan f lst (Suc i) ps h = Inr res"
      "pageBreak (h (lst ! i)) = Some ''before'' \<or> pageBreakCalculated (h (lst ! i))"
  | (fire) info a b c ps1 where "i < length lst" "pageBreak (h (lst ! i)) \<noteq> Some ''before''"
      "f ps info a b c = (True, ps1)"
      "res = (True, ps1, h(lst ! i := (h (lst ! i))\<lparr>pageBreakCalculated := True, pageBreak := Some ''before''\<rparr>))"
  | (pass) info a b c ps1 where "i < length lst" "pageBreak (h (lst ! i)) \<noteq> Some ''before''"
      "f ps info a b c = (False, ps1)"
      "scan f lst (Suc i) ps1 (h(lst ! i := (h (lst ! i))\<lparr>pageBreakCalculated := True\<rparr>)) = Inr res"
proof (cases "i < length lst")
  case False
  with assms ended show ?thesis by (subst (asm) scan.simps) simp
next
  case i: True
  show ?thesis
  proof (cases "pageBreak (h (lst ! i)) \<noteq> Some ''before'' \<and> \<not> pageBreakCalculated (h (lst ! i))")
    case False
    with assms i skip show ?thesis by (subst (asm) scan.simps) (auto simp: Let_def)
  next
    case True
    let ?h1 = "h(lst ! i := (h (lst ! i))\<lparr>pageBreakCalculated := True\<rparr>)"
    from assms i True obtain info a b c where
      step: "(case f ps info a b c of
              (answer, ps') \<Rightarrow>
                if answer then Inr (True, ps', ?h1(lst ! i := (?h1 (lst ! i))\<lparr>pageBreak := Some ''before''\<rparr>))
                else scan f lst (Suc i) ps' ?h1) = Inr res"
      by (subst (asm) scan.simps) (auto simp: Let_def split: option.splits sum.splits)
    obtain answer ps1 where f: "f ps info a b c = (answer, ps1)" by (cases "f ps info a b c")
    note eligible = \<open>pageBreak (h (lst ! i)) \<noteq> Some ''before'' \<and> \<not> pageBreakCalculated (h (lst ! i))\<close>
    show ?thesis
    proof (cases answer)
      case True
      with step f have "res = (True, ps1, h(lst ! i := (h (lst ! i))\<lparr>pageBreakCalculated := True, pageBreak := Some ''before''\<rparr>))"
        by auto
      moreover have "f ps info a b c = (True, ps1)" using f True by simp
      ultimately show ?thesis using fire [of info a b c ps1] i eligible by simp
    next
      case False
      with step f have "scan f lst (Suc i) ps1 ?h1 = Inr res" by auto
      moreover have "f ps info a b c = (False, ps1)" using f False by simp
      ultimately show ?thesis using pass [of info a b c ps1] i eligible by simp
    qed
  qed
qed

lemma scan_ok:
  assumes "\<forall>r\<in>set lst. nodeInfo (h r) \<noteq> None"
  shows "\<exists>res. scan f lst i ps h = Inr res"
  using assms
proof (induction "length lst - i" arbitrary: i ps h)
  case 0
  then show ?case by (subst scan.simps) auto
next
  case (Suc d)
  then have i: "i < length lst" by simp
  have d: "d = length lst - Suc i" using Suc.hyps(2) by simp
  let ?r = "lst ! i"
  let ?h1 = "h(?r := (h ?r)\<lparr>pageBreakCalculated := True\<rparr>)"
  have h1: "\<forall>r\<in>set lst. nodeInfo (?h1 r) \<noteq> None" using Suc.prems by simp
  show ?case
  proof (cases "pageBreak (h ?r) \<noteq> Some ''before'' \<and> \<not> pageBreakCalculated (h ?r)")
    case False
    with i Suc.hyps(1) [OF d Suc.prems, of ps] show ?thesis
      by (subst scan.simps) (auto simp: Let_def)
  next
    case True
    from h1 i obtain info where info: "nodeInfo (?h1 ?r) = Some info" by fastforce
    have sub: "\<forall>r\<in>set (drop (Suc i) lst). nodeInfo (?h1 r) \<noteq> None"
      "\<forall>r\<in>set (take i lst). nodeInfo (?h1 r) \<noteq> None"
      using h1 by (meson in_set_dropD in_set_takeD)+
    let ?q = "case pageNumbers info of [] \<Rightarrow> None | q # x \<Rightarrow> Some q"
    obtain a where a: "infosOnPage ?h1 ?q (drop (Suc i) lst) = Inr a"
      using infosOnPage_ok [OF sub(1)] by blast
    obtain b where b: "infosOnPage ?h1 (map_option (\<lambda>q. q + 1) ?q) (drop (Suc i) lst) = Inr b"
      using infosOnPage_ok [OF sub(1)] by blast
    obtain c where c: "infosOnPage ?h1 ?q (take i lst) = Inr c"
      using infosOnPage_ok [OF sub(2)] by blast
    obtain answer ps1 where f: "f ps info a b c = (answer, ps1)" by (cases "f ps info a b c")
    from Suc.hyps(1) [OF d h1, of ps1] obtain res where "scan f lst (Suc i) ps1 ?h1 = Inr res"
      by blast
    with i True info a b c f show ?thesis
      by (subst scan.simps) (cases res, simp add: Let_def del: fun_upd_apply, blast)
  qed
qed

lemma scan_fired:
  assumes once: "\<And>s info a b c. fired s \<Longrightarrow> \<not> fst (f s info a b c) \<and> fired (snd (f s info a b c))"
    and "fired ps" and "scan f lst i ps h = Inr (again, ps', h')"
  shows "\<not> again \<and> fired ps'"
  using assms(2,3)
proof (induction "length lst - i" arbitrary: i ps h)
  case 0
  from 0(3) show ?case
    by (cases rule: scan_cases) (use 0 in auto)
next
  case (Suc d)
  have d: "d = length lst - Suc i" using Suc.hyps(2) by simp
  from Suc.prems(2) show ?case
  proof (cases rule: scan_cases)
    case ended
    with Suc.prems show ?thesis by simp
  next
    case skip
    from Suc.hyps(1) [OF d Suc.prems(1) skip(2)] show ?thesis .
  next
    case (fire info a b c ps1)
    with once [OF Suc.prems(1), of info a b c] show ?thesis by simp
  next
    case (pass info a b c ps1)
    with once [OF Suc.prems(1), of info a b c] have "fired ps1" by simp
    from Suc.hyps(1) [OF d this pass(4)] show ?thesis .
  qed
qed

lemma scan_effect:
  assumes "scan f lst i ps h = Inr (again, ps', h')"
  shows "sameLayout h h'
       \<and> (\<forall>r. nodeInfo (h' r) = nodeInfo (h r))
       \<and> (if again
          then \<exists>k<length lst. pageBreak (h (lst ! k)) \<noteq> Some ''before''
                  \<and> pageBreak (h' (lst ! k)) = Some ''before''
                  \<and> (\<forall>r. r \<noteq> lst ! k \<longrightarrow> pageBreak (h' r) = pageBreak (h r))
          else \<forall>r. pageBreak (h' r) = pageBreak (h r))"
  using assms
proof (induction "length lst - i" arbitrary: i ps h)
  case 0
  from 0(2) show ?case
    by (cases rule: scan_cases) (use 0 in \<open>auto simp: sameLayout_refl\<close>)
next
  case (Suc d)
  have d: "d = length lst - Suc i" using Suc.hyps(2) by simp
  from Suc.prems show ?case
  proof (cases rule: scan_cases)
    case ended
    then show ?thesis by (simp add: sameLayout_refl)
  next
    case skip
    from Suc.hyps(1) [OF d skip(2)] show ?thesis .
  next
    case (fire info a b c ps1)
    then show ?thesis
      by (auto simp: sameLayout_def intro!: exI [of _ i])
  next
    case (pass info a b c ps1)
    let ?h1 = "h(lst ! i := (h (lst ! i))\<lparr>pageBreakCalculated := True\<rparr>)"
    note IH = Suc.hyps(1) [OF d pass(4)]
    have pb: "pageBreak (?h1 r) = pageBreak (h r)" for r by simp
    have ni: "nodeInfo (?h1 r) = nodeInfo (h r)" for r by simp
    have sl: "sameLayout h h'"
      using IH sameLayout_trans [OF sameLayout_calculated] by blast
    show ?thesis
      using IH sl unfolding pb ni by simp
  qed
qed

lemma scan_True_fired:
  assumes once: "\<And>s info a b c. fst (f s info a b c) \<Longrightarrow> fired (snd (f s info a b c))"
    and "scan f lst i ps h = Inr (True, ps', h')"
  shows "fired ps'"
  using assms(2)
proof (induction "length lst - i" arbitrary: i ps h)
  case 0
  from 0(2) show ?case
    by (cases rule: scan_cases) (use 0 in auto)
next
  case (Suc d)
  have d: "d = length lst - Suc i" using Suc.hyps(2) by simp
  from Suc.prems show ?case
  proof (cases rule: scan_cases)
    case ended
    then show ?thesis by simp
  next
    case skip
    from Suc.hyps(1) [OF d skip(2)] show ?thesis .
  next
    case (fire info a b c ps1)
    with once [of ps info a b c] show ?thesis by simp
  next
    case (pass info a b c ps1)
    from Suc.hyps(1) [OF d pass(4)] show ?thesis .
  qed
qed

subsection \<open>The reset of the coordinates\<close>

lemma unplaced_updates [simp]:
  "unplaced (nd\<lparr>node_x := a\<rparr>) = unplaced nd"
  "unplaced (nd\<lparr>node_y := b\<rparr>) = unplaced nd"
  "unplaced (nd\<lparr>canvas := c\<rparr>) = unplaced nd"
  by (simp_all add: unplaced_def)

lemma unplaced_fields:
  "pageBreak (unplaced nd) = pageBreak nd" "resetXY (unplaced nd) = resetXY nd"
  by (simp_all add: unplaced_def)

lemma decorated_decorateNode: "decorated (decorateNode nd)"
  by (auto simp: decorated_def decorateNode_def decorateVector_def split: option.splits)

lemma callVectorResetXY_restored: "callVectorResetXY v = Inr v' \<Longrightarrow> vectorRestored v v'"
  by (auto simp: callVectorResetXY_def vectorRestored_def split: option.splits)

lemma resetVectors_restored: "resetVectors vs = Inr vs' \<Longrightarrow> list_all2 vectorRestored vs vs'"
proof (induction vs arbitrary: vs')
  case Nil
  then show ?case by simp
next
  case (Cons v vs)
  then show ?case
    by (auto split: sum.splits dest: callVectorResetXY_restored)
qed

lemma resetVectors_ok:
  "\<forall>v\<in>set vs. vec_resetXY v \<noteq> None \<Longrightarrow> \<exists>vs'. resetVectors vs = Inr vs'"
  by (induction vs) (auto simp: callVectorResetXY_def split: option.splits)

lemma callResetXY_restored:
  assumes "callResetXY nd = Inr nd'"
  shows "restored nd nd'"
proof -
  from assms obtain a b where ab: "resetXY nd = Some (a, b)"
    by (auto simp: callResetXY_def split: option.splits)
  show ?thesis
  proof (cases "canvas nd")
    case None
    with assms ab have "nd' = nd\<lparr>node_x := a, node_y := b\<rparr>"
      by (simp add: callResetXY_def)
    with None ab show ?thesis by (simp add: restored_def)
  next
    case (Some vs)
    with assms ab obtain vs' where vs': "resetVectors vs = Inr vs'"
      and nd': "nd' = nd\<lparr>node_x := a, node_y := b, canvas := Some vs'\<rparr>"
      by (auto simp: callResetXY_def split: sum.splits)
    from resetVectors_restored [OF vs'] Some ab nd' show ?thesis
      by (simp add: restored_def)
  qed
qed

lemma callResetXY_ok: "decorated nd \<Longrightarrow> \<exists>nd'. callResetXY nd = Inr nd'"
  using resetVectors_ok
  by (fastforce simp: callResetXY_def decorated_def split: option.splits sum.splits)

lemma vectorRestored_trans:
  "vectorRestored v v' \<Longrightarrow> vectorRestored v' v'' \<Longrightarrow> vectorRestored v v''"
  by (auto simp: vectorRestored_def)

lemma vectors_restored_trans:
  "list_all2 vectorRestored vs vs' \<Longrightarrow> list_all2 vectorRestored vs' vs''
     \<Longrightarrow> list_all2 vectorRestored vs vs''"
  by (rule list_all2_trans [OF vectorRestored_trans])

lemma restored_trans:
  assumes "restored nd nd'" and "restored nd' nd''"
  shows "restored nd nd''"
proof -
  have r1: "rel_option (list_all2 vectorRestored) (canvas nd) (canvas nd')"
    and r2: "rel_option (list_all2 vectorRestored) (canvas nd') (canvas nd'')"
    and x1: "resetXY nd' = resetXY nd" and x2: "resetXY nd'' = resetXY nd'"
    and c2: "resetXY nd' = Some (node_x nd'', node_y nd'')"
    and u1: "unplaced nd' = unplaced nd" and u2: "unplaced nd'' = unplaced nd'"
    using assms unfolding restored_def by blast+
  have c: "rel_option (list_all2 vectorRestored) (canvas nd) (canvas nd'')"
  proof (cases "canvas nd'")
    case None
    with r1 r2 show ?thesis by simp
  next
    case (Some vs')
    with r1 obtain vs where vs: "canvas nd = Some vs" "list_all2 vectorRestored vs vs'"
      by (cases "canvas nd") auto
    from Some r2 obtain vs'' where vs'': "canvas nd'' = Some vs''" "list_all2 vectorRestored vs' vs''"
      by (cases "canvas nd''") auto
    from vectors_restored_trans [OF vs(2) vs''(2)] vs(1) vs''(1) show ?thesis by simp
  qed
  have "unplaced nd'' = unplaced nd" using u1 u2 by (rule trans [rotated])
  moreover have "resetXY nd = Some (node_x nd'', node_y nd'')" using c2 x1 by simp
  moreover have "resetXY nd'' = resetXY nd" using x1 x2 by simp
  ultimately show ?thesis using c unfolding restored_def by blast
qed

lemma restored_decorated:
  assumes "restored nd nd'" and "decorated nd"
  shows "decorated nd'"
proof -
  have r: "rel_option (list_all2 vectorRestored) (canvas nd) (canvas nd')"
    and x: "resetXY nd' = resetXY nd"
    using assms(1) unfolding restored_def by blast+
  have key: "\<forall>v\<in>set vs'. vec_resetXY v \<noteq> None"
    if "list_all2 vectorRestored vs vs'" "\<forall>v\<in>set vs. vec_resetXY v \<noteq> None" for vs vs'
    using that by (induction rule: list_all2_induct) (auto simp: vectorRestored_def)
  have x': "resetXY nd' \<noteq> None" using x assms(2) by (simp add: decorated_def)
  show ?thesis
  proof (cases "canvas nd'")
    case None
    with x' show ?thesis by (simp add: decorated_def)
  next
    case (Some vs')
    with r obtain vs where vs: "canvas nd = Some vs" "list_all2 vectorRestored vs vs'"
      by (cases "canvas nd") auto
    with assms(2) have "\<forall>v\<in>set vs. vec_resetXY v \<noteq> None" by (simp add: decorated_def)
    from key [OF vs(2) this] Some x' show ?thesis by (simp add: decorated_def)
  qed
qed

lemma resetXYs_restored:
  assumes "resetXYs rs h = Inr h2"
  shows "(\<forall>r\<in>set rs. restored (h r) (h2 r)) \<and> (\<forall>r. r \<notin> set rs \<longrightarrow> h2 r = h r)"
  using assms
proof (induction rs arbitrary: h)
  case Nil
  then show ?case by simp
next
  case (Cons a rs)
  from Cons.prems obtain nd where nd: "callResetXY (h a) = Inr nd"
    and rest: "resetXYs rs (h(a := nd)) = Inr h2"
    by (auto split: sum.splits)
  note IH = Cons.IH [OF rest]
  have a: "restored (h a) nd" using nd by (rule callResetXY_restored)
  have "restored (h a) (h2 a)"
  proof (cases "a \<in> set rs")
    case True
    with IH have "restored nd (h2 a)" by auto
    with a show ?thesis by (rule restored_trans)
  next
    case False
    with IH have "h2 a = nd" by auto
    with a show ?thesis by simp
  qed
  moreover have "restored (h r) (h2 r)" if "r \<in> set rs" "r \<noteq> a" for r
    using IH that by auto
  moreover have "h2 r = h r" if "r \<notin> set (a # rs)" for r
    using IH that by auto
  ultimately show ?case by auto
qed

lemma resetXYs_ok:
  assumes "\<forall>r\<in>set rs. decorated (h r)"
  shows "\<exists>h2. resetXYs rs h = Inr h2"
  using assms
proof (induction rs arbitrary: h)
  case Nil
  then show ?case by simp
next
  case (Cons a rs)
  then have "decorated (h a)" by simp
  from callResetXY_ok [OF this] obtain nd where nd: "callResetXY (h a) = Inr nd" by blast
  have "decorated nd"
    using callResetXY_restored [OF nd] \<open>decorated (h a)\<close> by (rule restored_decorated)
  with Cons.prems have "\<forall>r\<in>set rs. decorated ((h(a := nd)) r)" by simp
  from Cons.IH [OF this] obtain h2 where "resetXYs rs (h(a := nd)) = Inr h2" by blast
  with nd show ?case by simp
qed

lemma sameLayout_decorated:
  assumes "sameLayout h h'" and "decorated (h r)"
  shows "decorated (h' r)"
proof -
  from assms(1) have e: "unmarked (h' r) = unmarked (h r)"
    by (simp add: sameLayout_def)
  have "resetXY (h' r) = resetXY (h r)"
    using arg_cong [OF e, of resetXY] by (simp add: unmarked_fields)
  moreover have "canvas (h' r) = canvas (h r)"
    using arg_cong [OF e, of canvas] by (simp add: unmarked_fields)
  ultimately show ?thesis using assms(2) by (simp add: decorated_def)
qed

subsection \<open>The loop of \<open>layoutDocument\<close>\<close>

lemma addPageBreaks_ok:
  "\<exists>res. addPageBreaksIfNecessary g ps lst pgs h = Inr res"
proof (cases g)
  case None
  then show ?thesis by (simp add: addPageBreaksIfNecessary_def) blast
next
  case (Some f)
  let ?l = "filter (\<lambda>r. length (node.positions (h r)) > 0) lst"
  have "\<forall>r\<in>set ?l. nodeInfo (fold (summarize (length pgs)) ?l h r) \<noteq> None"
    by (simp add: fold_summarize)
  from scan_ok [OF this] Some show ?thesis
    by (simp add: addPageBreaksIfNecessary_def Let_def)
qed

lemma addPageBreaks_scan:
  "addPageBreaksIfNecessary (Some f) ps lst pgs h
     = scan f (filter (\<lambda>r. length (node.positions (h r)) > 0) lst) 0 ps
         (fold (summarize (length pgs)) (filter (\<lambda>r. length (node.positions (h r)) > 0) lst) h)"
  by (simp add: addPageBreaksIfNecessary_def Let_def)

lemma addPageBreaks_fired:
  assumes "\<And>s info a b c. fired s \<Longrightarrow> \<not> fst (f s info a b c) \<and> fired (snd (f s info a b c))"
    and "fired ps" and "addPageBreaksIfNecessary (Some f) ps lst pgs h = Inr (again, ps', h')"
  shows "\<not> again"
  using scan_fired [of fired f ps _ 0 _ again ps' h', OF assms(1,2)] assms(3)
  unfolding addPageBreaks_scan by blast

lemma addPageBreaks_True_fired:
  assumes "\<And>s info a b c. fst (f s info a b c) \<Longrightarrow> fired (snd (f s info a b c))"
    and "addPageBreaksIfNecessary (Some f) ps lst pgs h = Inr (True, ps', h')"
  shows "fired ps'"
  using scan_True_fired [of f fired _ 0 ps _ ps' h', OF assms(1)] assms(2)
  unfolding addPageBreaks_scan by blast

lemma pageBreak_summarize: "pageBreak (fold (summarize n) l h r) = pageBreak (h r)"
  by (simp add: fold_summarize)

lemma addPageBreaks_effect:
  assumes "addPageBreaksIfNecessary (Some f) ps lst pgs h = Inr (again, ps', h')"
  shows "sameLayout h h'
       \<and> (if again
          then \<exists>r\<in>set lst. node.positions (h r) \<noteq> [] \<and> pageBreak (h r) \<noteq> Some ''before''
                  \<and> pageBreak (h' r) = Some ''before''
                  \<and> (\<forall>r'. r' \<noteq> r \<longrightarrow> pageBreak (h' r') = pageBreak (h r'))
          else \<forall>r. pageBreak (h' r) = pageBreak (h r))"
proof -
  let ?l = "filter (\<lambda>r. length (node.positions (h r)) > 0) lst"
  let ?H = "fold (summarize (length pgs)) ?l h"
  from assms have s: "scan f ?l 0 ps ?H = Inr (again, ps', h')"
    by (simp add: addPageBreaks_scan)
  note e = scan_effect [OF s]
  note pb = pageBreak_summarize
  have sl: "sameLayout h h'"
    using e sameLayout_trans [OF sameLayout_summarize] by blast
  show ?thesis
  proof (cases again)
    case False
    with e sl show ?thesis unfolding pb by simp
  next
    case True
    with e obtain k where k: "k < length ?l" "pageBreak (?H (?l ! k)) \<noteq> Some ''before''"
      "pageBreak (h' (?l ! k)) = Some ''before''"
      "\<forall>r. r \<noteq> ?l ! k \<longrightarrow> pageBreak (h' r) = pageBreak (?H r)"
      by auto
    from k(1) have "?l ! k \<in> set ?l" by (rule nth_mem)
    then have "?l ! k \<in> set lst" "node.positions (h (?l ! k)) \<noteq> []" by auto
    with k True sl show ?thesis
      unfolding pb by (intro conjI) (simp, simp only: if_True, blast)
  qed
qed

lemma restored_pageBreak: "restored nd nd' \<Longrightarrow> pageBreak nd' = pageBreak nd"
proof -
  assume "restored nd nd'"
  then have "unplaced nd' = unplaced nd" unfolding restored_def by blast
  from arg_cong [OF this, of pageBreak] show ?thesis by (simp add: unplaced_fields)
qed

text \<open>
  Claim C1, amended. The predicate has a state, and \<open>fired\<close> is a set of states in which it
  answers false and which it does not leave, and into which a true answer takes it: it answers
  true at most once. The first traversal returns \<open>result1\<close>. When the predicate answers
  false at every call of the first scan, \<open>layoutDocument\<close> makes exactly one attempt and
  returns the pages of that traversal. When the predicate answers true in the first scan, the
  visited nodes are decorated and the second traversal returns \<open>result2\<close>, then
  \<open>layoutDocument\<close> makes exactly two attempts, the \<open>resetXY\<close> of every visited node has
  restored its coordinates between the two, exactly one visited node, whose page break was
  not \<open>before\<close>, has been marked with the page break \<open>before\<close>, and the pages returned are
  those of the second traversal.
\<close>

theorem layoutDocument_attempts:
  assumes once: "\<And>s info a b c. fired s \<Longrightarrow> \<not> fst (f s info a b c) \<and> fired (snd (f s info a b c))"
    and fires: "\<And>s info a b c. fst (f s info a b c) \<Longrightarrow> fired (snd (f s info a b c))"
    and first: "tryLayoutDocument st = returns (result1, st1)"
  shows "(\<forall>ps1 h1.
            addPageBreaksIfNecessary (Some f) ps (layoutResult.linearNodeList result1) (pages result1)
                (heap st1) = Inr (False, ps1, h1)
            \<longrightarrow> layoutDocument tryLayoutDocument (Some f) ps st
                  = returns \<lparr>returned = pages result1, attempts = 1,
                             finalBuilder = st1\<lparr>heap := h1\<rparr>, finalPredicate = ps1\<rparr>)
       \<and> (\<forall>ps1 h1 result2 st2.
            addPageBreaksIfNecessary (Some f) ps (layoutResult.linearNodeList result1) (pages result1)
                (heap st1) = Inr (True, ps1, h1)
            \<and> (\<forall>r\<in>set (layoutResult.linearNodeList result1). decorated (heap st1 r))
            \<and> (\<forall>h2. resetXYs (layoutResult.linearNodeList result1) h1 = Inr h2
                   \<longrightarrow> tryLayoutDocument (st1\<lparr>heap := h2\<rparr>) = returns (result2, st2))
            \<longrightarrow> (\<exists>h2 run.
                   resetXYs (layoutResult.linearNodeList result1) h1 = Inr h2
                 \<and> (\<forall>r\<in>set (layoutResult.linearNodeList result1). restored (h1 r) (h2 r))
                 \<and> (\<exists>r\<in>set (layoutResult.linearNodeList result1).
                        pageBreak (heap st1 r) \<noteq> Some ''before''
                      \<and> pageBreak (h1 r) = Some ''before'' \<and> pageBreak (h2 r) = Some ''before''
                      \<and> (\<forall>r'. r' \<noteq> r \<longrightarrow> pageBreak (h1 r') = pageBreak (heap st1 r')))
                 \<and> layoutDocument tryLayoutDocument (Some f) ps st = returns run
                 \<and> returned run = pages result2 \<and> attempts run = 2))"
proof (intro conjI allI impI)
  fix ps1 h1
  assume "addPageBreaksIfNecessary (Some f) ps (layoutResult.linearNodeList result1) (pages result1)
                (heap st1) = Inr (False, ps1, h1)"
  with first show "layoutDocument tryLayoutDocument (Some f) ps st
                  = returns \<lparr>returned = pages result1, attempts = 1,
                             finalBuilder = st1\<lparr>heap := h1\<rparr>, finalPredicate = ps1\<rparr>"
    by (simp add: layoutDocument_def returns_def layoutDocument_loop.simps [of _ _ result1])
next
  fix ps1 h1 result2 st2
  let ?lst = "layoutResult.linearNodeList result1"
  assume h: "addPageBreaksIfNecessary (Some f) ps ?lst (pages result1) (heap st1) = Inr (True, ps1, h1)
            \<and> (\<forall>r\<in>set ?lst. decorated (heap st1 r))
            \<and> (\<forall>h2. resetXYs ?lst h1 = Inr h2
                   \<longrightarrow> tryLayoutDocument (st1\<lparr>heap := h2\<rparr>) = returns (result2, st2))"
  then have scan1: "addPageBreaksIfNecessary (Some f) ps ?lst (pages result1) (heap st1) = Inr (True, ps1, h1)"
    and dec: "\<forall>r\<in>set ?lst. decorated (heap st1 r)"
    and second: "\<And>h2. resetXYs ?lst h1 = Inr h2
                   \<Longrightarrow> tryLayoutDocument (st1\<lparr>heap := h2\<rparr>) = returns (result2, st2)"
    by blast+
  note eff = addPageBreaks_effect [OF scan1]
  have "\<forall>r\<in>set ?lst. decorated (h1 r)"
    using dec eff sameLayout_decorated by blast
  from resetXYs_ok [OF this] obtain h2 where h2: "resetXYs ?lst h1 = Inr h2" by blast
  note rest = resetXYs_restored [OF h2]
  from eff obtain r where r: "r \<in> set ?lst" "pageBreak (heap st1 r) \<noteq> Some ''before''"
    "pageBreak (h1 r) = Some ''before''"
    "\<forall>r'. r' \<noteq> r \<longrightarrow> pageBreak (h1 r') = pageBreak (heap st1 r')"
    by auto
  have "pageBreak (h2 r) = pageBreak (h1 r)"
    using rest r(1) restored_pageBreak by blast
  with r have mark: "\<exists>r\<in>set ?lst. pageBreak (heap st1 r) \<noteq> Some ''before''
                      \<and> pageBreak (h1 r) = Some ''before'' \<and> pageBreak (h2 r) = Some ''before''
                      \<and> (\<forall>r'. r' \<noteq> r \<longrightarrow> pageBreak (h1 r') = pageBreak (heap st1 r'))"
    by auto
  have f1: "fired ps1" using fires scan1 by (rule addPageBreaks_True_fired)
  obtain again2 ps2 h3 where scan2:
    "addPageBreaksIfNecessary (Some f) ps1 (layoutResult.linearNodeList result2) (pages result2)
       (heap st2) = Inr (again2, ps2, h3)"
    using addPageBreaks_ok [of "Some f" ps1 "layoutResult.linearNodeList result2" "pages result2" "heap st2"]
    by (metis prod_cases3)
  have "\<not> again2" using once f1 scan2 by (rule addPageBreaks_fired)
  with scan2 have loop2: "layoutDocument_loop tryLayoutDocument (Some f) result2 2 ps1 st2
      = returns \<lparr>returned = pages result2, attempts = 2,
                 finalBuilder = st2\<lparr>heap := h3\<rparr>, finalPredicate = ps2\<rparr>"
    by (simp add: returns_def layoutDocument_loop.simps [of _ _ result2])
  have "layoutDocument tryLayoutDocument (Some f) ps st
      = returns \<lparr>returned = pages result2, attempts = 2,
                 finalBuilder = st2\<lparr>heap := h3\<rparr>, finalPredicate = ps2\<rparr>"
    using first scan1 h2 second [OF h2] loop2
    by (simp add: layoutDocument_def returns_def layoutDocument_loop.simps [of _ _ result1]
        numeral_2_eq_2)
  with h2 rest mark show "\<exists>h2 run.
                   resetXYs ?lst h1 = Inr h2
                 \<and> (\<forall>r\<in>set ?lst. restored (h1 r) (h2 r))
                 \<and> (\<exists>r\<in>set ?lst.
                        pageBreak (heap st1 r) \<noteq> Some ''before''
                      \<and> pageBreak (h1 r) = Some ''before'' \<and> pageBreak (h2 r) = Some ''before''
                      \<and> (\<forall>r'. r' \<noteq> r \<longrightarrow> pageBreak (h1 r') = pageBreak (heap st1 r')))
                 \<and> layoutDocument tryLayoutDocument (Some f) ps st = returns run
                 \<and> returned run = pages result2 \<and> attempts run = 2"
    by (intro exI [of _ h2] exI [of _ "\<lparr>returned = pages result2, attempts = 2,
                 finalBuilder = st2\<lparr>heap := h3\<rparr>, finalPredicate = ps2\<rparr>"]) simp
qed

lemma firstHeap_fields:
  "pageBreak (firstHeap 0) = None" "canvas (firstHeap 0) = None"
  "node.positions (firstHeap 0) = [onPage 1]" "pageBreakCalculated (firstHeap 0) = False"
  "resetXY (firstHeap 0) = Some (node_x emptyNode, node_y emptyNode)"
  by (simp_all add: firstHeap_def decorateNode_def emptyNode_fields)

lemma visitNode_first:
  "visitNode emptyBuilder = returns (firstResult, emptyBuilder\<lparr>heap := firstHeap\<rparr>)"
  by (simp add: visitNode_def emptyBuilder_def Let_def decorateNode_def emptyNode_fields
      firstHeap_def firstResult_def)

lemma firstHeap_scan:
  "addPageBreaksIfNecessary (Some f) ps (layoutResult.linearNodeList firstResult)
       (pages firstResult) firstHeap
     = (case f ps (summary (firstHeap 0) 1) [] [] [] of
          (answer, ps') \<Rightarrow>
            if answer
            then Inr (True, ps', firstHeap(0 := (firstHeap 0)\<lparr>nodeInfo := Some (summary (firstHeap 0) 1),
                        pageBreakCalculated := True, pageBreak := Some ''before''\<rparr>))
            else Inr (False, ps', firstHeap(0 := (firstHeap 0)\<lparr>nodeInfo := Some (summary (firstHeap 0) 1),
                        pageBreakCalculated := True\<rparr>)))"
  by (simp add: addPageBreaksIfNecessary_def scan.simps [of _ _ 0] scan.simps [of _ _ "Suc 0"]
      summarize_def firstHeap_fields firstResult_def distinctPageNumbers_def onPage_def
      split: prod.split)

lemma pageBreak_decorateNode: "pageBreak (decorateNode n) = pageBreak n"
  by (simp add: decorateNode_def)

lemma markedHeap_reset:
  "resetXYs (layoutResult.linearNodeList firstResult) markedHeap = Inr resetHeap"
  by (simp add: firstResult_def callResetXY_def markedHeap_def resetHeap_def firstHeap_fields)

lemma visitNode_second:
  "visitNode (emptyBuilder\<lparr>heap := firstHeap, heap := resetHeap\<rparr>) = returns (secondResult, secondBuilder)"
  by (simp add: visitNode_def Let_def pageBreak_decorateNode secondResult_def secondBuilder_def
      emptyBuilder_def) (simp add: resetHeap_def markedHeap_def)

theorem layoutDocument_attempts_witness:
  "map_option (map_sum id (\<lambda>run. (returned run, attempts run)))
       (layoutDocument visitNode (Some breakOnce) True emptyBuilder) = returns ([1], 1)
   \<and> map_option (map_sum id (\<lambda>run. (returned run, attempts run)))
       (layoutDocument visitNode (Some breakOnce) False emptyBuilder) = returns ([1, 2], 2)"
proof -
  let ?sta = "emptyBuilder\<lparr>heap := firstHeap\<rparr>"
  note t = layoutDocument_attempts [where fired = "\<lambda>s. s" and f = breakOnce
      and tryLayoutDocument = visitNode and st = emptyBuilder and ?result1.0 = firstResult
      and ?st1.0 = ?sta, OF _ _ visitNode_first]
  let ?ha = "firstHeap(0 := (firstHeap 0)\<lparr>nodeInfo := Some (summary (firstHeap 0) 1),
                pageBreakCalculated := True\<rparr>)"
  have a: "addPageBreaksIfNecessary (Some breakOnce) True (layoutResult.linearNodeList firstResult)
             (pages firstResult) (heap ?sta) = Inr (False, True, ?ha)"
    by (simp add: firstHeap_scan breakOnce_def)
  have 1: "layoutDocument visitNode (Some breakOnce) True emptyBuilder
      = returns \<lparr>returned = pages firstResult, attempts = 1, finalBuilder = ?sta\<lparr>heap := ?ha\<rparr>,
                  finalPredicate = True\<rparr>"
    by (rule t [THEN conjunct1, THEN spec, THEN spec, THEN mp, OF _ _ a])
      (simp_all only: breakOnce_def fst_conv snd_conv simp_thms)
  have b1: "addPageBreaksIfNecessary (Some breakOnce) False (layoutResult.linearNodeList firstResult)
             (pages firstResult) (heap ?sta) = Inr (True, True, markedHeap)"
    by (simp add: firstHeap_scan breakOnce_def markedHeap_def)
  have b2: "\<forall>r\<in>set (layoutResult.linearNodeList firstResult). decorated (heap ?sta r)"
    by (simp add: firstResult_def decorated_def firstHeap_fields)
  have b3: "\<forall>h2. resetXYs (layoutResult.linearNodeList firstResult) markedHeap = Inr h2
               \<longrightarrow> visitNode (?sta\<lparr>heap := h2\<rparr>) = returns (secondResult, secondBuilder)"
    unfolding markedHeap_reset using visitNode_second by simp
  have "\<exists>h2 run. resetXYs (layoutResult.linearNodeList firstResult) markedHeap = Inr h2
        \<and> (\<forall>r\<in>set (layoutResult.linearNodeList firstResult). restored (markedHeap r) (h2 r))
        \<and> (\<exists>r\<in>set (layoutResult.linearNodeList firstResult).
               pageBreak (heap ?sta r) \<noteq> Some ''before''
             \<and> pageBreak (markedHeap r) = Some ''before'' \<and> pageBreak (h2 r) = Some ''before''
             \<and> (\<forall>r'. r' \<noteq> r \<longrightarrow> pageBreak (markedHeap r') = pageBreak (heap ?sta r')))
        \<and> layoutDocument visitNode (Some breakOnce) False emptyBuilder = returns run
        \<and> returned run = pages secondResult \<and> attempts run = 2"
    by (rule t [THEN conjunct2, THEN spec, THEN spec, THEN spec, THEN spec, THEN mp,
          OF _ _ conjI [OF b1 conjI [OF b2 b3]]])
      (simp_all only: breakOnce_def fst_conv snd_conv simp_thms)
  then obtain run where 2: "layoutDocument visitNode (Some breakOnce) False emptyBuilder = returns run"
    "returned run = pages secondResult" "attempts run = 2"
    by blast
  have "map_option (map_sum id (\<lambda>run. (returned run, attempts run)))
       (layoutDocument visitNode (Some breakOnce) True emptyBuilder) = returns ([1], 1)"
    unfolding 1 by (simp add: returns_def firstResult_def)
  moreover have "map_option (map_sum id (\<lambda>run. (returned run, attempts run)))
       (layoutDocument visitNode (Some breakOnce) False emptyBuilder) = returns ([1, 2], 2)"
    unfolding 2(1) using 2(2,3) by (simp add: returns_def secondResult_def)
  ultimately show ?thesis by (rule conjI)
qed

text \<open>
  Claim C1 as stated fails for a predicate that never answers true, which answers true at
  most once: the document of one node is traversed once, and the pages of that only
  traversal are returned.
\<close>

theorem layoutDocument_attempts_counterexample:
  "(\<forall>ps info a b c. \<not> fst (neverBreak ps info a b c))
   \<and> map_option (map_sum id (\<lambda>run. (returned run, attempts run)))
       (layoutDocument visitNode (Some neverBreak) () emptyBuilder)
     = returns ([1], 1)"
proof
  show "\<forall>ps info a b c. \<not> fst (neverBreak ps info a b c)" by (simp add: neverBreak_def)
  have "addPageBreaksIfNecessary (Some neverBreak) () (layoutResult.linearNodeList firstResult)
       (pages firstResult) firstHeap
     = Inr (False, (), firstHeap(0 := (firstHeap 0)\<lparr>nodeInfo := Some (summary (firstHeap 0) 1),
                        pageBreakCalculated := True\<rparr>))"
    unfolding firstHeap_scan by (simp add: neverBreak_def)
  then have "layoutDocument_loop visitNode (Some neverBreak) firstResult 1 ()
        (emptyBuilder\<lparr>heap := firstHeap\<rparr>)
      = returns \<lparr>returned = pages firstResult, attempts = 1,
           finalBuilder = emptyBuilder\<lparr>heap := firstHeap(0 := (firstHeap 0)\<lparr>nodeInfo := Some (summary (firstHeap 0) 1),
                        pageBreakCalculated := True\<rparr>)\<rparr>, finalPredicate = ()\<rparr>"
    by (subst layoutDocument_loop.simps) (simp add: returns_def)
  then show "map_option (map_sum id (\<lambda>run. (returned run, attempts run)))
       (layoutDocument visitNode (Some neverBreak) () emptyBuilder)
     = returns ([1], 1)"
    by (simp add: layoutDocument_def visitNode_first returns_def firstResult_def)
qed

end
